theory Spec2Isabelle
  imports Main "HOL-Library.Char_ord" "HOL-Library.List_Lexorder"
begin

section \<open>RouteGuard core: a shallow embedding of \<^verbatim>\<open>routeguard_core.py\<close>\<close>

text \<open>
  Python values are modelled as follows. A \<^verbatim>\<open>str\<close> is a \<^typ>\<open>string\<close> (the texts the
  program handles are ASCII: interface names, addresses, rule lines); an \<^verbatim>\<open>int\<close> is an
  \<^typ>\<open>int\<close>; a dataclass is a record; \<^verbatim>\<open>None\<close> as a field value is \<^const>\<open>None\<close>;
  a raised exception is the left injection of a sum. Strings are ordered as Python orders
  them, lexicographically by character code.
\<close>

subsection \<open>String helpers (the Python built-ins the module uses)\<close>

definition dquote :: char where
  "dquote = CHR 0x22"

definition newline :: char where
  "newline = CHR 0x0A"

text \<open>\<^verbatim>\<open>sep.join(xs)\<close>\<close>

fun join :: "string \<Rightarrow> string list \<Rightarrow> string" where
  "join sep [] = []"
| "join sep [x] = x"
| "join sep (x # y # ys) = x @ sep @ join sep (y # ys)"

text \<open>\<^verbatim>\<open>str(n)\<close> for an integer: decimal digits, with a minus sign when negative.\<close>

fun digits_of_nat :: "nat \<Rightarrow> string" where
  "digits_of_nat n =
     (if n < 10 then [''0123456789'' ! n]
      else digits_of_nat (n div 10) @ [''0123456789'' ! (n mod 10)])"

declare digits_of_nat.simps [simp del]

definition str_int :: "int \<Rightarrow> string" where
  "str_int i = (if i < 0 then CHR ''-'' # digits_of_nat (nat (- i)) else digits_of_nat (nat i))"

text \<open>\<^verbatim>\<open>s.lower()\<close> on ASCII text.\<close>

definition lower_char :: "char \<Rightarrow> char" where
  "lower_char c =
     (case map_of (zip ''ABCDEFGHIJKLMNOPQRSTUVWXYZ'' ''abcdefghijklmnopqrstuvwxyz'') c of
        Some d \<Rightarrow> d
      | None \<Rightarrow> c)"

definition lower :: "string \<Rightarrow> string" where
  "lower s = map lower_char s"

text \<open>\<^verbatim>\<open>s.replace(c, '')\<close> for a one-character \<^verbatim>\<open>c\<close>.\<close>

definition remove_char :: "char \<Rightarrow> string \<Rightarrow> string" where
  "remove_char c s = filter (\<lambda>x. x \<noteq> c) s"

subsection \<open>Module constants\<close>

definition ROUTEGUARD_TABLE_FAMILY :: string where
  "ROUTEGUARD_TABLE_FAMILY = ''inet''"

definition ROUTEGUARD_TABLE_NAME :: string where
  "ROUTEGUARD_TABLE_NAME = ''routeguard''"

definition DEFAULT_INTERVAL :: int where
  "DEFAULT_INTERVAL = 5"

definition PRIVATE_V4_CIDRS :: "string list" where
  "PRIVATE_V4_CIDRS = [''10.0.0.0/8'', ''172.16.0.0/12'', ''192.168.0.0/16'']"

definition PRIVATE_V6_CIDR :: string where
  "PRIVATE_V6_CIDR = ''fc00::/7''"

definition LINK_LOCAL_V6 :: "string list" where
  "LINK_LOCAL_V6 = [''fe80::/10'', ''ff00::/8'']"

subsection \<open>The data model: \<^verbatim>\<open>EndpointRule\<close> and \<^verbatim>\<open>GeneratedConfig\<close>\<close>

record EndpointRule =
  ip :: string
  port :: int
  proto :: string

text \<open>
  \<^verbatim>\<open>vpn_endpoints: List[EndpointRule] = None\<close>: the field holds a list or \<^verbatim>\<open>None\<close>, and
  \<^verbatim>\<open>None\<close> is what the constructor stores when the argument is left out.
\<close>

record GeneratedConfig =
  mode :: string
  vpn_iface :: string
  poll_interval_sec :: int
  allow_lan :: bool
  allow_dhcp :: bool
  vpn_endpoints :: "EndpointRule list option"

text \<open>The dataclass constructor called with the two required arguments only.\<close>

definition GeneratedConfig_default :: "string \<Rightarrow> string \<Rightarrow> GeneratedConfig" where
  "GeneratedConfig_default m iface =
     \<lparr>mode = m, vpn_iface = iface, poll_interval_sec = DEFAULT_INTERVAL,
      allow_lan = True, allow_dhcp = True, vpn_endpoints = None\<rparr>"

text \<open>\<^verbatim>\<open>(cfg.vpn_endpoints or [])\<close>: \<^verbatim>\<open>None\<close> and the empty list both give the empty list.\<close>

definition endpoints_or_empty :: "GeneratedConfig \<Rightarrow> EndpointRule list" where
  "endpoints_or_empty cfg = (case vpn_endpoints cfg of None \<Rightarrow> [] | Some eps \<Rightarrow> eps)"

subsection \<open>The rule compiler: \<^verbatim>\<open>build_nft_script\<close>\<close>

definition table_header_lines :: "string list" where
  \<open>table_header_lines =
     [''table '' @ ROUTEGUARD_TABLE_FAMILY @ '' '' @ ROUTEGUARD_TABLE_NAME @ '' {'',
      ''  chain rg_output {'',
      ''    type filter hook output priority filter; policy accept;'']\<close>

definition loopback_rule :: string where
  \<open>loopback_rule = ''    oifname "lo" accept''\<close>

definition tunnel_rule :: "string \<Rightarrow> string" where
  \<open>tunnel_rule iface = ''    oifname "'' @ iface @ ''" accept''\<close>

definition link_local_rule :: string where
  \<open>link_local_rule = ''    ip6 daddr { '' @ join '', '' LINK_LOCAL_V6 @ '' } accept''\<close>

definition dhcp_rules :: "string list" where
  \<open>dhcp_rules = [''    udp sport 68 udp dport 67 accept'', ''    udp sport 546 udp dport 547 accept'']\<close>

definition lan_rules :: "string list" where
  \<open>lan_rules =
     [''    ip daddr { '' @ join '', '' PRIVATE_V4_CIDRS @ '' } accept'',
      ''    ip6 daddr '' @ PRIVATE_V6_CIDR @ '' accept'']\<close>

text \<open>The body of the \<^verbatim>\<open>for ep in ...\<close> loop: the line appended for one endpoint.\<close>

definition endpoint_rule :: "EndpointRule \<Rightarrow> string" where
  \<open>endpoint_rule ep =
     (let fam = (if CHR '':'' \<in> set (ip ep) then ''ip6'' else ''ip'');
          pr = lower (proto ep)
      in ''    '' @ fam @ '' daddr '' @ ip ep @ '' '' @ pr @ '' dport '' @ str_int (port ep) @ '' accept'')\<close>

definition drop_rule :: "string \<Rightarrow> string" where
  \<open>drop_rule iface = ''    oifname != "'' @ iface @ ''" drop''\<close>

text \<open>The \<^verbatim>\<open>for\<close> loop appends one line per endpoint to \<^verbatim>\<open>lines\<close>.\<close>

fun append_endpoint_rules :: "string list \<Rightarrow> EndpointRule list \<Rightarrow> string list" where
  "append_endpoint_rules lines [] = lines"
| "append_endpoint_rules lines (ep # eps) = append_endpoint_rules (lines @ [endpoint_rule ep]) eps"

text \<open>The list \<^verbatim>\<open>lines\<close> as it stands just before the final join.\<close>

definition build_nft_lines :: "GeneratedConfig \<Rightarrow> string list" where
  "build_nft_lines cfg =
     (let iface = remove_char dquote (vpn_iface cfg);
          lines0 = table_header_lines @ [loopback_rule, tunnel_rule iface, link_local_rule];
          lines1 = (if allow_dhcp cfg then lines0 @ dhcp_rules else lines0);
          lines2 = (if allow_lan cfg then lines1 @ lan_rules else lines1);
          lines3 = append_endpoint_rules lines2 (endpoints_or_empty cfg)
      in lines3 @ [drop_rule iface, ''  }'', ''}''])"

definition build_nft_script :: "GeneratedConfig \<Rightarrow> string" where
  "build_nft_script cfg = join [newline] (build_nft_lines cfg) @ [newline]"

text \<open>
  The rules of the chain are the lines of the script between the three header lines and
  the two closing braces.
\<close>

definition chain_rules :: "GeneratedConfig \<Rightarrow> string list" where
  "chain_rules cfg = butlast (butlast (drop 3 (build_nft_lines cfg)))"

subsection \<open>The leak detector: \<^verbatim>\<open>suspicious_routes\<close>\<close>

text \<open>
  A route is one object of the list that \<^verbatim>\<open>ip -j route\<close> prints: a dictionary whose
  keys \<^verbatim>\<open>dst\<close>, \<^verbatim>\<open>dev\<close>, \<^verbatim>\<open>oif\<close> and \<^verbatim>\<open>gateway\<close>, when present, hold strings.
\<close>

type_synonym route = "string \<rightharpoonup> string"

definition targets :: "bool \<Rightarrow> string set" where
  "targets ipv6 = (if ipv6 then {''::/1'', ''8000::/1''} else {''0.0.0.0/1'', ''128.0.0.0/1''})"

text \<open>\<^verbatim>\<open>r.get('dev') or r.get('oif') or ''\<close>: the first of the two that is present and non-empty.\<close>

definition egress_dev :: "route \<Rightarrow> string" where
  "egress_dev r =
     (case r ''dev'' of
        Some d \<Rightarrow> (if d \<noteq> [] then d else (case r ''oif'' of Some oif \<Rightarrow> oif | None \<Rightarrow> []))
      | None \<Rightarrow> (case r ''oif'' of Some oif \<Rightarrow> oif | None \<Rightarrow> []))"

text \<open>The condition of the \<^verbatim>\<open>if\<close> in the loop body.\<close>

definition flagged :: "string \<Rightarrow> bool \<Rightarrow> route \<Rightarrow> bool" where
  "flagged iface ipv6 r =
     ((case r ''dst'' of None \<Rightarrow> False | Some dst \<Rightarrow> dst \<in> targets ipv6)
      \<and> egress_dev r \<noteq> [] \<and> egress_dev r \<noteq> iface)"

text \<open>The alert string appended for a flagged route.\<close>

definition alert_of :: "route \<Rightarrow> string" where
  "alert_of r =
     (case r ''dst'' of None \<Rightarrow> ''None'' | Some dst \<Rightarrow> dst) @ '' via dev='' @ egress_dev r
       @ '' gateway='' @ (case r ''gateway'' of None \<Rightarrow> ''-'' | Some g \<Rightarrow> g)"

fun suspicious_routes_loop :: "string list \<Rightarrow> route list \<Rightarrow> string \<Rightarrow> bool \<Rightarrow> string list" where
  "suspicious_routes_loop out [] iface ipv6 = out"
| "suspicious_routes_loop out (r # rs) iface ipv6 =
     suspicious_routes_loop (if flagged iface ipv6 r then out @ [alert_of r] else out) rs iface ipv6"

definition suspicious_routes :: "route list \<Rightarrow> string \<Rightarrow> bool \<Rightarrow> string list" where
  "suspicious_routes routes iface ipv6 = suspicious_routes_loop [] routes iface ipv6"

subsection \<open>Serialisation: \<^verbatim>\<open>to_dict\<close> and \<^verbatim>\<open>to_json\<close>\<close>

text \<open>The values a dictionary built by \<^verbatim>\<open>asdict\<close> holds here, which are the JSON values.\<close>

datatype jval =
    JNull
  | JBool bool
  | JInt int
  | JStr string
  | JList "jval list"
  | JObj "(string \<times> jval) list"

definition asdict_endpoint :: "EndpointRule \<Rightarrow> jval" where
  "asdict_endpoint e = JObj [(''ip'', JStr (ip e)), (''port'', JInt (port e)), (''proto'', JStr (proto e))]"

text \<open>
  \<^verbatim>\<open>asdict(self)\<close> lists the fields in declaration order; the assignment to
  \<^verbatim>\<open>d["vpn_endpoints"]\<close> then overwrites the last entry in place.
\<close>

definition to_dict :: "GeneratedConfig \<Rightarrow> jval" where
  "to_dict cfg =
     JObj [(''mode'', JStr (mode cfg)),
           (''vpn_iface'', JStr (vpn_iface cfg)),
           (''poll_interval_sec'', JInt (poll_interval_sec cfg)),
           (''allow_lan'', JBool (allow_lan cfg)),
           (''allow_dhcp'', JBool (allow_dhcp cfg)),
           (''vpn_endpoints'', JList (map asdict_endpoint (endpoints_or_empty cfg)))]"

text \<open>
  \<^verbatim>\<open>json.dumps(v, indent=2, ensure_ascii=False)\<close>: the standard encoder. A string is
  quoted, with the quote, the backslash and the control characters escaped; an empty
  container is \<^verbatim>\<open>[]\<close> or \<^verbatim>\<open>{}\<close>; the items of a non-empty one stand on lines of their
  own, indented by two spaces a level.
\<close>

definition hex_digit :: "nat \<Rightarrow> char" where
  "hex_digit n = ''0123456789abcdef'' ! n"

definition json_escape_char :: "char \<Rightarrow> string" where
  "json_escape_char c =
     (if c = dquote then [CHR 0x5C, dquote]
      else if c = CHR 0x5C then [CHR 0x5C, CHR 0x5C]
      else if c = CHR 0x0A then [CHR 0x5C, CHR ''n'']
      else if c = CHR 0x0D then [CHR 0x5C, CHR ''r'']
      else if c = CHR 0x09 then [CHR 0x5C, CHR ''t'']
      else if c = CHR 0x08 then [CHR 0x5C, CHR ''b'']
      else if c = CHR 0x0C then [CHR 0x5C, CHR ''f'']
      else if (of_char c :: nat) < 32
        then [CHR 0x5C, CHR ''u'', CHR ''0'', CHR ''0'',
              hex_digit (of_char c div 16), hex_digit (of_char c mod 16)]
      else [c])"

definition json_string :: "string \<Rightarrow> string" where
  "json_string s = dquote # concat (map json_escape_char s) @ [dquote]"

definition newline_indent :: "nat \<Rightarrow> string" where
  "newline_indent level = newline # replicate (2 * level) CHR '' ''"

fun json_encode :: "nat \<Rightarrow> jval \<Rightarrow> string" where
  "json_encode level JNull = ''null''"
| "json_encode level (JBool b) = (if b then ''true'' else ''false'')"
| "json_encode level (JInt i) = str_int i"
| "json_encode level (JStr s) = json_string s"
| "json_encode level (JList xs) =
     (if xs = [] then ''[]''
      else ''['' @ newline_indent (Suc level)
           @ join ('','' @ newline_indent (Suc level)) (map (json_encode (Suc level)) xs)
           @ newline_indent level @ '']'')"
| "json_encode level (JObj kvs) =
     (if kvs = [] then ''{}''
      else ''{'' @ newline_indent (Suc level)
           @ join ('','' @ newline_indent (Suc level))
               (map (\<lambda>kv. json_string (fst kv) @ '': '' @ json_encode (Suc level) (snd kv)) kvs)
           @ newline_indent level @ ''}'')"

definition to_json :: "GeneratedConfig \<Rightarrow> string" where
  "to_json cfg = json_encode 0 (to_dict cfg)"

subsection \<open>More string helpers\<close>

text \<open>\<^verbatim>\<open>s.strip()\<close>: the ASCII characters for which \<^verbatim>\<open>str.isspace\<close> holds are removed at both ends.\<close>

definition is_space :: "char \<Rightarrow> bool" where
  "is_space c \<longleftrightarrow>
     c \<in> set [CHR 0x09, CHR 0x0A, CHR 0x0B, CHR 0x0C, CHR 0x0D,
              CHR 0x1C, CHR 0x1D, CHR 0x1E, CHR 0x1F, CHR 0x20]"

definition strip :: "string \<Rightarrow> string" where
  "strip s = rev (dropWhile is_space (rev (dropWhile is_space s)))"

text \<open>\<^verbatim>\<open>p in s\<close> for strings.\<close>

fun is_substring :: "string \<Rightarrow> string \<Rightarrow> bool" where
  "is_substring p [] = (p = [])"
| "is_substring p (c # cs) = (take (length p) (c # cs) = p \<or> is_substring p cs)"

text \<open>\<^verbatim>\<open>a or b\<close> for strings.\<close>

definition str_or :: "string \<Rightarrow> string \<Rightarrow> string" where
  "str_or a b = (if a \<noteq> [] then a else b)"

subsection \<open>Exceptions and the world the commands act on\<close>

text \<open>
  \<^verbatim>\<open>RouteGuardError\<close> is the module's own exception, with its message. \<^verbatim>\<open>OSError\<close> is
  what \<^verbatim>\<open>subprocess.run\<close> raises when the process cannot be started, and what a failed
  file operation raises.
\<close>

datatype exn = RouteGuardError string | OSError string

fun exn_message :: "exn \<Rightarrow> string" where
  "exn_message (RouteGuardError m) = m"
| "exn_message (OSError m) = m"

text \<open>The external commands that \<^verbatim>\<open>run_cmd\<close> is called with.\<close>

datatype cmd =
    NftDelete
  | NftList
  | NftLoad
  | WgQuickUp
  | WgQuickDown
  | IpLinkShow
  | IpRouteShow bool

text \<open>The two entries of \<^verbatim>\<open>STATE_PATHS\<close>.\<close>

datatype state_path = RunPath | TmpPath

definition STATE_PATHS :: "state_path list" where
  "STATE_PATHS = [RunPath, TmpPath]"

fun path_str :: "state_path \<Rightarrow> string" where
  "path_str RunPath = ''/run/routeguard-auto/state.json''"
| "path_str TmpPath = ''/tmp/routeguard-auto-state.json''"

text \<open>The calls of the module's own operations, recorded in the order they are made.\<close>

datatype call =
    CallApply
  | CallRemove
  | CallWgUp
  | CallWgDown
  | CallWriteState
  | CallRemoveState

text \<open>What \<^verbatim>\<open>write_text\<close> does: it succeeds, or raises, with or without the file created.\<close>

datatype write_outcome = WriteOk | WriteFails bool

text \<open>
  The world is the part of the host the module reads and changes, together with the
  answers of the environment that the module cannot influence:
  \<^item> \<open>nft_installed\<close>, \<open>wg_quick_installed\<close>: what \<^verbatim>\<open>command_exists\<close> answers;
  \<^item> \<open>spawn_faults\<close>: the commands whose start fails, so that \<^verbatim>\<open>run_cmd\<close> raises;
  \<^item> \<open>table\<close>: the ruleset text of the managed table \<^verbatim>\<open>inet routeguard\<close>, if it exists.
    \<^verbatim>\<open>nft delete table\<close> exits with 0 and removes it when it exists and exits with an error
    otherwise; \<^verbatim>\<open>nft list table\<close> exits with 0 exactly when it exists;
  \<^item> \<open>nft_load\<close>: exit status, stdout and stderr of \<^verbatim>\<open>nft -f -\<close> for a script; on status 0
    the table holds the script, otherwise nothing changes;
  \<^item> \<open>wg_up_result\<close>, \<open>wg_down_result\<close>: exit status, stdout and stderr of \<^verbatim>\<open>wg-quick\<close>;
  \<^item> \<open>iface_polls\<close>: the answers of the successive \<^verbatim>\<open>ip link show\<close> calls that fit into the
    ten-second window of \<^verbatim>\<open>_wait_for_iface\<close>;
  \<^item> \<open>run_dir_ok\<close>: whether the directory of the first state path can be created;
  \<^item> \<open>write_result\<close>: what writing the state file does;
  \<^item> \<open>state_files\<close>: the state paths at which a file exists; unlinking an existing file
    removes it, unlinking a missing one raises;
  \<^item> \<open>log_faults\<close>: the messages on which the callable that the caller handed to the
    runner as its logger raises (all of them, say, once its output pipe is closed);
  \<^item> \<open>logged\<close>: the messages that this callable took and returned from;
  \<^item> \<open>calls\<close>: the record of calls.
\<close>

record world =
  nft_installed :: bool
  wg_quick_installed :: bool
  spawn_faults :: "cmd set"
  table :: "string option"
  nft_load :: "string \<Rightarrow> int \<times> string \<times> string"
  wg_up_result :: "int \<times> string \<times> string"
  wg_down_result :: "int \<times> string \<times> string"
  iface_polls :: "bool list"
  run_dir_ok :: bool
  write_result :: write_outcome
  state_files :: "state_path set"
  log_faults :: "string set"
  logged :: "string list"
  calls :: "call list"

text \<open>An operation takes the world and returns its result or the exception it raised.\<close>

type_synonym 'a action = "world \<Rightarrow> (exn + 'a) \<times> world"

definition succeed :: "'a \<Rightarrow> 'a action" where
  "succeed x w = (Inr x, w)"

definition raise :: "exn \<Rightarrow> 'a action" where
  "raise e w = (Inl e, w)"

text \<open>Sequencing: an exception of the first operation skips the second.\<close>

definition and_then :: "'a action \<Rightarrow> ('a \<Rightarrow> 'b action) \<Rightarrow> 'b action" where
  "and_then m f w = (case m w of (Inl e, w') \<Rightarrow> (Inl e, w') | (Inr x, w') \<Rightarrow> f x w')"

text \<open>
  \<^verbatim>\<open>try: body finally: fin\<close>. The \<^verbatim>\<open>finally\<close> block runs whatever the body did; when it
  raises, its exception replaces the outcome of the body, otherwise that outcome stands.
\<close>

definition try_finally :: "'a action \<Rightarrow> unit action \<Rightarrow> 'a action" where
  "try_finally body fin w =
     (case body w of (r, w1) \<Rightarrow>
        (case fin w1 of (Inl e, w2) \<Rightarrow> (Inl e, w2) | (Inr u, w2) \<Rightarrow> (r, w2)))"

text \<open>\<^verbatim>\<open>try: body except Exception as e: handler(e)\<close>\<close>

definition try_except :: "'a action \<Rightarrow> (exn \<Rightarrow> 'a action) \<Rightarrow> 'a action" where
  "try_except body handler w =
     (case body w of (Inl e, w1) \<Rightarrow> handler e w1 | (Inr x, w1) \<Rightarrow> (Inr x, w1))"

text \<open>
  A logger is a callable taking the message; like every call, calling it can raise. The
  runner's logger is the one its caller supplied: it takes the message, or raises.
\<close>

type_synonym logger = "string \<Rightarrow> unit action"

definition runner_logger :: logger where
  "runner_logger msg w =
     (if msg \<in> log_faults w then (Inl (OSError ''logger failed''), w)
      else (Inr (), w\<lparr>logged := logged w @ [msg]\<rparr>))"

text \<open>\<^verbatim>\<open>lambda _msg: None\<close>\<close>

definition silent_logger :: logger where
  "silent_logger msg w = (Inr (), w)"

definition note_call :: "call \<Rightarrow> world \<Rightarrow> world" where
  "note_call c w = w\<lparr>calls := calls w @ [c]\<rparr>"

text \<open>
  \<^verbatim>\<open>run_cmd(args, check=False)\<close>: raises when the process cannot be started; a non-zero
  exit status is part of the result and is not raised.
\<close>

definition spawn :: "cmd \<Rightarrow> unit action" where
  "spawn c w = (if c \<in> spawn_faults w then (Inl (OSError ''cannot start process''), w) else (Inr (), w))"

subsection \<open>The firewall controller\<close>

definition routeguard_table_exists :: "bool action" where
  "routeguard_table_exists w =
     (if nft_installed w
      then and_then (spawn NftList) (\<lambda>_ w1. (Inr (table w1 \<noteq> None), w1)) w
      else (Inr False, w))"

definition remove_nft_rules :: "logger \<Rightarrow> unit action" where
  "remove_nft_rules logger w0 =
     (let w = note_call CallRemove w0 in
      if \<not> nft_installed w then (Inr (), w)
      else and_then (spawn NftDelete) (\<lambda>_ w1.
             if table w1 \<noteq> None
             then logger ''Removed nftables table inet routeguard.'' (w1\<lparr>table := None\<rparr>)
             else logger ''nftables table inet routeguard was not present (nothing to remove).'' w1) w)"

definition apply_nft_rules :: "GeneratedConfig \<Rightarrow> logger \<Rightarrow> unit action" where
  "apply_nft_rules cfg logger w0 =
     (let w = note_call CallApply w0 in
      if \<not> nft_installed w then (Inl (RouteGuardError ''nft command not found. Install nftables.''), w)
      else
        and_then (remove_nft_rules silent_logger) (\<lambda>_.
        and_then (spawn NftLoad) (\<lambda>_ w2.
          let script = build_nft_script cfg;
              (rc, out, err) = nft_load w2 script
          in if rc \<noteq> 0
             then (Inl (RouteGuardError (''nft failed to apply rules: ''
                          @ str_or (strip (str_or err (str_or out []))) ''unknown error'')), w2)
             else
               and_then routeguard_table_exists (\<lambda>present w4.
                 if \<not> present
                 then (Inl (RouteGuardError ''Failed to apply nft rules (table inet routeguard missing).''), w4)
                 else logger (''Applied nftables rules for iface '' @ [CHR 0x27] @ vpn_iface cfg
                          @ [CHR 0x27] @ '' ('' @ str_int (int (length (endpoints_or_empty cfg)))
                          @ '' endpoint rule(s)).'') w4)
               (w2\<lparr>table := Some script\<rparr>))) w)"

subsection \<open>The tunnel commands\<close>

definition wg_quick_up :: "string \<Rightarrow> logger \<Rightarrow> unit action" where
  "wg_quick_up iface logger w0 =
     (let w = note_call CallWgUp w0 in
      if \<not> wg_quick_installed w
      then (Inl (RouteGuardError ''wg-quick not found. Install wireguard-tools.''), w)
      else and_then (spawn WgQuickUp) (\<lambda>_ w1.
             let (rc, sout, serr) = wg_up_result w1;
                 out = sout @ serr
             in if rc \<noteq> 0 \<and> \<not> is_substring ''already exists'' out \<and> \<not> is_substring ''already up'' out
                then (Inl (RouteGuardError (''wg-quick up '' @ iface @ '' failed:'' @ [newline] @ strip out)), w1)
                else logger (''WireGuard interface '' @ [CHR 0x27] @ iface @ [CHR 0x27]
                               @ '' is up (or already up).'') w1) w)"

definition wg_quick_down :: "string \<Rightarrow> logger \<Rightarrow> unit action" where
  "wg_quick_down iface logger w0 =
     (let w = note_call CallWgDown w0 in
      if \<not> wg_quick_installed w then (Inr (), w)
      else and_then (spawn WgQuickDown) (\<lambda>_ w1.
             let (rc, sout, serr) = wg_down_result w1;
                 out = sout @ serr
             in if rc = 0
                then logger (''WireGuard interface '' @ [CHR 0x27] @ iface @ [CHR 0x27] @ '' is down.'') w1
                else logger (''wg-quick down '' @ iface @ '': '' @ str_or (strip out) ''no action'') w1) w)"

subsection \<open>The state store\<close>

text \<open>
  \<^verbatim>\<open>_state_path\<close>: the first path whose directory can be created; the directory of the
  second is \<^verbatim>\<open>/tmp\<close>, and the second path is also the answer when nothing could be created.
\<close>

definition state_path_of :: "world \<Rightarrow> state_path" where
  "state_path_of w = (if run_dir_ok w then RunPath else TmpPath)"

definition write_state :: "GeneratedConfig \<Rightarrow> state_path action" where
  "write_state cfg w0 =
     (let w = note_call CallWriteState w0;
          p = state_path_of w
      in case write_result w of
           WriteOk \<Rightarrow> (Inr p, w\<lparr>state_files := insert p (state_files w)\<rparr>)
         | WriteFails created \<Rightarrow>
             (Inl (OSError ''cannot write state file''),
              if created then w\<lparr>state_files := insert p (state_files w)\<rparr> else w))"

text \<open>One turn of the loop of \<^verbatim>\<open>remove_state\<close>: \<^verbatim>\<open>unlink\<close>, with every exception swallowed.\<close>

definition unlink_quietly :: "state_path \<Rightarrow> world \<Rightarrow> world" where
  "unlink_quietly p w = (if p \<in> state_files w then w\<lparr>state_files := state_files w - {p}\<rparr> else w)"

definition remove_state :: "unit action" where
  "remove_state w0 = (Inr (), fold unlink_quietly STATE_PATHS (note_call CallRemoveState w0))"

subsection \<open>The lifecycle runner\<close>

text \<open>
  The fields of \<^verbatim>\<open>RouteGuardRunner\<close> that \<^verbatim>\<open>__init__\<close> takes; \<^verbatim>\<open>self.logger\<close> is
  \<^const>\<open>runner_logger\<close>.
\<close>

record runner =
  cfg :: GeneratedConfig
  auto_up_vpn :: bool
  auto_down_vpn_on_exit :: bool
  cleanup_nft_on_exit :: bool

text \<open>
  The stop event is set from outside the loop (a signal handler or \<^verbatim>\<open>request_stop\<close>). A
  run that returns has gone through the loop body a finite number of times before it
  saw the event set; the environment's part in each of these turns is a \<open>cycle\<close>:
  whether the managed table was deleted behind the runner's back since the last turn, and
  the route lists that \<^verbatim>\<open>ip_json_routes\<close> returns for IPv4 and IPv6 (the parsed output of
  \<^verbatim>\<open>ip -j route\<close>, empty when the command fails or prints no JSON list).
\<close>

record cycle =
  tampered :: bool
  routes4 :: "route list"
  routes6 :: "route list"

definition tamper :: "cycle \<Rightarrow> world \<Rightarrow> world" where
  "tamper c w = (if tampered c then w\<lparr>table := None\<rparr> else w)"

definition ip_json_routes :: "cycle \<Rightarrow> bool \<Rightarrow> (route list) action" where
  "ip_json_routes c ipv6 =
     and_then (spawn (IpRouteShow ipv6)) (\<lambda>_. succeed (if ipv6 then routes6 c else routes4 c))"

text \<open>
  \<^verbatim>\<open>_wait_for_iface\<close>: one \<^verbatim>\<open>interface_exists\<close> call per poll inside the window, and the
  exception when the window closes.
\<close>

fun wait_polls :: "bool list \<Rightarrow> string \<Rightarrow> unit action" where
  "wait_polls [] iface w =
     (Inl (RouteGuardError (''VPN interface '' @ [CHR 0x27] @ iface @ [CHR 0x27] @ '' not found.'')), w)"
| "wait_polls (b # bs) iface w =
     (case spawn IpLinkShow w of
        (Inl e, w1) \<Rightarrow> (Inl e, w1)
      | (Inr u, w1) \<Rightarrow> if b then (Inr (), w1) else wait_polls bs iface w1)"

definition wait_for_iface :: "runner \<Rightarrow> unit action" where
  "wait_for_iface r w = wait_polls (iface_polls w) (vpn_iface (cfg r)) w"

text \<open>The first statement of the loop body: re-apply the rules when the table is gone.\<close>

definition heal :: "runner \<Rightarrow> unit action" where
  "heal r =
     (if mode (cfg r) = ''protect''
      then and_then routeguard_table_exists (\<lambda>present.
             if \<not> present
             then and_then (runner_logger ''WARNING: nft table missing, re-applying rules.'')
                    (\<lambda>_. apply_nft_rules (cfg r) runner_logger)
             else succeed ())
      else succeed ())"

text \<open>\<^verbatim>\<open>current\<close>: the set of the alert strings of both address families.\<close>

definition scan_routes :: "runner \<Rightarrow> cycle \<Rightarrow> (string set) action" where
  "scan_routes r c =
     and_then (ip_json_routes c False) (\<lambda>r4.
     and_then (ip_json_routes c True) (\<lambda>r6.
       succeed (set (suspicious_routes r4 (vpn_iface (cfg r)) False
                     @ suspicious_routes r6 (vpn_iface (cfg r)) True))))"

text \<open>\<^verbatim>\<open>sorted(current - warned)\<close>\<close>

definition new_alerts :: "string set \<Rightarrow> string set \<Rightarrow> string list" where
  "new_alerts warned current = sorted_list_of_set (current - warned)"

definition alert_line :: "string \<Rightarrow> string" where
  "alert_line msg = ''ALERT suspicious route detected: '' @ msg"

text \<open>
  The \<^verbatim>\<open>for msg in sorted(current - warned)\<close> loop calls the logger for one line after the
  other. One turn of the \<^verbatim>\<open>while\<close> loop goes up to the assignment
  \<^verbatim>\<open>warned = current\<close>: the result is the new value of \<^verbatim>\<open>warned\<close>. The sleep that
  follows changes nothing.
\<close>

fun log_each :: "string list \<Rightarrow> unit action" where
  "log_each [] w = (Inr (), w)"
| "log_each (msg # msgs) w =
     (case runner_logger msg w of
        (Inl e, w1) \<Rightarrow> (Inl e, w1)
      | (Inr u, w1) \<Rightarrow> log_each msgs w1)"

definition monitor_iteration :: "runner \<Rightarrow> string set \<Rightarrow> cycle \<Rightarrow> (string set) action" where
  "monitor_iteration r warned c w =
     and_then (heal r) (\<lambda>_.
     and_then (scan_routes r c) (\<lambda>current.
     and_then (log_each (map alert_line (new_alerts warned current))) (\<lambda>_.
       succeed current)))
     (tamper c w)"

fun monitor_loop :: "runner \<Rightarrow> string set \<Rightarrow> cycle list \<Rightarrow> unit action" where
  "monitor_loop r warned [] w = (Inr (), w)"
| "monitor_loop r warned (c # cs) w =
     (case monitor_iteration r warned c w of
        (Inl e, w1) \<Rightarrow> (Inl e, w1)
      | (Inr current, w1) \<Rightarrow> monitor_loop r current cs w1)"

text \<open>From \<^verbatim>\<open>write_state\<close> to \<^verbatim>\<open>return 0\<close>.\<close>

definition monitoring :: "runner \<Rightarrow> cycle list \<Rightarrow> int action" where
  "monitoring r cycles =
     and_then (write_state (cfg r)) (\<lambda>statep.
     and_then (runner_logger (''State file: '' @ path_str statep)) (\<lambda>_.
     and_then (monitor_loop r {} cycles) (\<lambda>_.
     and_then (runner_logger ''Stopping RouteGuard...'') (\<lambda>_.
       succeed 0))))"

text \<open>The body of the outer \<^verbatim>\<open>try\<close>.\<close>

definition run_body :: "runner \<Rightarrow> cycle list \<Rightarrow> int action" where
  "run_body r cycles =
     and_then (if auto_up_vpn r then wg_quick_up (vpn_iface (cfg r)) runner_logger else succeed ()) (\<lambda>_.
       if mode (cfg r) = ''protect''
       then and_then (wait_for_iface r) (\<lambda>_.
            and_then (apply_nft_rules (cfg r) runner_logger) (\<lambda>_. monitoring r cycles))
       else if mode (cfg r) = ''monitor''
       then and_then (runner_logger ''Monitor mode: no nftables blocking rules will be applied.'')
              (\<lambda>_. monitoring r cycles)
       else if mode (cfg r) = ''off''
       then and_then (remove_nft_rules runner_logger) (\<lambda>_.
            and_then (runner_logger ''Off mode: exiting.'') (\<lambda>_. succeed 0))
       else raise (RouteGuardError (''Unknown mode: '' @ mode (cfg r))))"

text \<open>The three steps of the \<^verbatim>\<open>finally\<close> blocks.\<close>

definition teardown_firewall :: "runner \<Rightarrow> unit action" where
  "teardown_firewall r =
     (if cleanup_nft_on_exit r \<and> mode (cfg r) = ''protect''
      then remove_nft_rules runner_logger else succeed ())"

definition teardown_tunnel :: "runner \<Rightarrow> unit action" where
  "teardown_tunnel r =
     (if auto_down_vpn_on_exit r
      then try_except (wg_quick_down (vpn_iface (cfg r)) runner_logger)
             (\<lambda>e. runner_logger (''WARNING wg-quick down failed: '' @ exn_message e))
      else succeed ())"

definition teardown :: "runner \<Rightarrow> unit action" where
  "teardown r =
     try_finally (teardown_firewall r) (and_then (teardown_tunnel r) (\<lambda>_. remove_state))"

text \<open>The two log lines before the \<^verbatim>\<open>try\<close>; an exception here leaves \<^verbatim>\<open>run\<close> at once.\<close>

definition endpoint_text :: "EndpointRule \<Rightarrow> string" where
  "endpoint_text e = ip e @ '':'' @ str_int (port e) @ ''/'' @ proto e"

definition run_prologue :: "runner \<Rightarrow> unit action" where
  "run_prologue r =
     and_then (runner_logger (''RouteGuard starting: mode='' @ mode (cfg r) @ '', iface=''
                                @ vpn_iface (cfg r) @ '', interval=''
                                @ str_int (poll_interval_sec (cfg r)) @ ''s''))
       (\<lambda>_. runner_logger (''Endpoints: ''
                @ join '', '' (map endpoint_text (endpoints_or_empty (cfg r)))))"

definition run :: "runner \<Rightarrow> cycle list \<Rightarrow> int action" where
  "run r cycles =
     and_then (run_prologue r) (\<lambda>_. try_finally (run_body r cycles) (teardown r))"


text \<open>
  The condition of the leak detector in the words of its description: the destination is
  one of the split-default prefixes of the family, and the egress device is set and is not
  the tunnel interface.
\<close>

definition split_default_leak :: "string \<Rightarrow> bool \<Rightarrow> route \<Rightarrow> bool" where
  "split_default_leak iface ipv6 r \<longleftrightarrow>
     (if ipv6 then r ''dst'' = Some ''::/1'' \<or> r ''dst'' = Some ''8000::/1''
      else r ''dst'' = Some ''0.0.0.0/1'' \<or> r ''dst'' = Some ''128.0.0.0/1'')
     \<and> egress_dev r \<noteq> [] \<and> egress_dev r \<noteq> iface"

text \<open>The alert lines among the messages logged between two worlds.\<close>

definition is_alert_line :: "string \<Rightarrow> bool" where
  "is_alert_line l \<longleftrightarrow> take 33 l = ''ALERT suspicious route detected: ''"

definition alerts_logged :: "world \<Rightarrow> world \<Rightarrow> string list" where
  "alerts_logged w w' = filter is_alert_line (drop (length (logged w)) (logged w'))"

subsection \<open>Sample values\<close>

text \<open>
  A host on which everything is installed and every command succeeds, with a logger that
  never raises, no managed table and no state file; a configuration with one endpoint; and a runner for it.
\<close>

definition idle_host :: world where
  "idle_host =
     \<lparr>nft_installed = True, wg_quick_installed = True, spawn_faults = {}, table = None,
      nft_load = (\<lambda>script. (0, [], [])), wg_up_result = (0, [], []), wg_down_result = (0, [], []),
      iface_polls = [True], run_dir_ok = True, write_result = WriteOk, state_files = {},
      log_faults = {}, logged = [], calls = []\<rparr>"

text \<open>
  The same host with a logger that has lost its output by the time of the teardown: it
  raises on the line that reports the tunnel down and on the warning about a failed
  tunnel-down command.
\<close>

definition closed_pipe_host :: world where
  "closed_pipe_host =
     idle_host\<lparr>log_faults :=
       {''WireGuard interface '' @ [CHR 0x27] @ ''wg0'' @ [CHR 0x27] @ '' is down.'',
        ''WARNING wg-quick down failed: logger failed''}\<rparr>"

definition sample_cfg :: "string \<Rightarrow> GeneratedConfig" where
  "sample_cfg m =
     \<lparr>mode = m, vpn_iface = ''wg0'', poll_interval_sec = 5, allow_lan = True, allow_dhcp = True,
      vpn_endpoints = Some [\<lparr>ip = ''203.0.113.5'', port = 51820, proto = ''udp''\<rparr>]\<rparr>"

definition sample_runner :: "string \<Rightarrow> runner" where
  "sample_runner m =
     \<lparr>cfg = sample_cfg m, auto_up_vpn = False, auto_down_vpn_on_exit = True,
      cleanup_nft_on_exit = True\<rparr>"

subsection \<open>Notions used in the statements\<close>


text \<open>The scan result of a cycle: the alert strings of its two route lists, as a set.\<close>

definition scan_result :: "runner \<Rightarrow> cycle \<Rightarrow> string set" where
  "scan_result r c =
     set (suspicious_routes (routes4 c) (vpn_iface (cfg r)) False)
     \<union> set (suspicious_routes (routes6 c) (vpn_iface (cfg r)) True)"

text \<open>
  The alert lines of a sequence of cycles as the description of the monitor loop gives
  them: in each cycle one line for every alert of the current scan result that is not in
  the previous scan result, in sorted order; then the current result becomes the previous
  one.
\<close>

fun spec_alert_log :: "runner \<Rightarrow> string set \<Rightarrow> cycle list \<Rightarrow> string list" where
  "spec_alert_log r previous [] = []"
| "spec_alert_log r previous (c # cs) =
     map alert_line (sorted_list_of_set (scan_result r c - previous))
     @ spec_alert_log r (scan_result r c) cs"

text \<open>Three routes for the examples: a leak over \<open>eth0\<close>, its second half, and a harmless default route.\<close>

definition leak_low :: route where
  "leak_low = [''dst'' \<mapsto> ''0.0.0.0/1'', ''dev'' \<mapsto> ''eth0'', ''gateway'' \<mapsto> ''192.168.1.1'']"

definition leak_high :: route where
  "leak_high = [''dst'' \<mapsto> ''128.0.0.0/1'', ''dev'' \<mapsto> ''eth0'', ''gateway'' \<mapsto> ''192.168.1.1'']"

definition default_route :: route where
  "default_route = [''dst'' \<mapsto> ''default'', ''dev'' \<mapsto> ''eth0'', ''gateway'' \<mapsto> ''192.168.1.1'']"

text \<open>Two cycles for the examples: one in which the leak is in the IPv4 table, one without it.\<close>

definition leak_cycle :: cycle where
  "leak_cycle = \<lparr>tampered = False, routes4 = [default_route, leak_low], routes6 = []\<rparr>"

definition calm_cycle :: cycle where
  "calm_cycle = \<lparr>tampered = False, routes4 = [default_route], routes6 = []\<rparr>"

text \<open>
  A cycle whose IPv4 table holds the upper half first and the lower half twice (the same
  destination, device and gateway under two routing protocols).
\<close>

definition doubled_routes :: "route list" where
  "doubled_routes = [leak_high, leak_low(''protocol'' \<mapsto> ''static''), leak_low(''protocol'' \<mapsto> ''dhcp'')]"

definition doubled_cycle :: cycle where
  "doubled_cycle = \<lparr>tampered = False, routes4 = doubled_routes, routes6 = []\<rparr>"

subsection \<open>The WireGuard file: \<^verbatim>\<open>parse_wireguard_config\<close>\<close>

text \<open>
  \<^verbatim>\<open>text.splitlines()\<close>: the ASCII line boundaries are line feed, carriage return (with a
  following line feed as one boundary), vertical tab, form feed and the three separators
  \<^verbatim>\<open>\x1c\<close> to \<^verbatim>\<open>\x1e\<close>; a boundary at the very end opens no further line.
\<close>

definition is_linebreak :: "char \<Rightarrow> bool" where
  "is_linebreak c \<longleftrightarrow>
     c \<in> set [CHR 0x0A, CHR 0x0B, CHR 0x0C, CHR 0x0D, CHR 0x1C, CHR 0x1D, CHR 0x1E]"

fun splitlines_from :: "string \<Rightarrow> string \<Rightarrow> string list" where
  "splitlines_from cur [] = (if cur = [] then [] else [rev cur])"
| "splitlines_from cur [c] = (if is_linebreak c then [rev cur] else [rev (c # cur)])"
| "splitlines_from cur (c # d # ds) =
     (if c = CHR 0x0D \<and> d = CHR 0x0A then rev cur # splitlines_from [] ds
      else if is_linebreak c then rev cur # splitlines_from [] (d # ds)
      else splitlines_from (c # cur) (d # ds))"

definition splitlines :: "string \<Rightarrow> string list" where
  "splitlines s = splitlines_from [] s"

text \<open>\<^verbatim>\<open>s.split(c)\<close> for a one-character separator.\<close>

fun split_on_from :: "char \<Rightarrow> string \<Rightarrow> string \<Rightarrow> string list" where
  "split_on_from sep cur [] = [rev cur]"
| "split_on_from sep cur (c # cs) =
     (if c = sep then rev cur # split_on_from sep [] cs else split_on_from sep (c # cur) cs)"

definition split_on :: "char \<Rightarrow> string \<Rightarrow> string list" where
  "split_on sep s = split_on_from sep [] s"

text \<open>
  The result of the parser: the keys of the \<^verbatim>\<open>[Interface]\<close> section and, in file order,
  the keys of each \<^verbatim>\<open>[Peer]\<close> section.
\<close>

record wg_config =
  interface :: "string \<rightharpoonup> string"
  peers :: "(string \<rightharpoonup> string) list"

datatype wg_section = InterfaceSection | PeerSection

text \<open>
  The state of the loop over the lines. \<^verbatim>\<open>current_peer\<close> is the dictionary appended
  last to \<^verbatim>\<open>peers\<close> while the current section is \<^verbatim>\<open>peer\<close>, and \<^verbatim>\<open>None\<close> otherwise; a
  key stored in it is stored in the last element of \<^verbatim>\<open>peers\<close>.
\<close>

record parse_state =
  ps_interface :: "string \<rightharpoonup> string"
  ps_peers :: "(string \<rightharpoonup> string) list"
  ps_section :: "wg_section option"

definition parse_line :: "string \<Rightarrow> parse_state \<Rightarrow> parse_state" where
  "parse_line raw_line st =
     (let line = strip raw_line in
      if line = [] \<or> hd line = CHR ''#'' \<or> hd line = CHR '';'' then st
      else if hd line = CHR ''['' \<and> last line = CHR '']'' then
        (let sect = lower (strip (butlast (tl line))) in
         if sect = ''interface'' then st\<lparr>ps_section := Some InterfaceSection\<rparr>
         else if sect = ''peer''
           then st\<lparr>ps_section := Some PeerSection, ps_peers := ps_peers st @ [Map.empty]\<rparr>
         else st\<lparr>ps_section := None\<rparr>)
      else if CHR ''='' \<notin> set line then st
      else
        (let key = strip (takeWhile (\<lambda>c. c \<noteq> CHR ''='') line);
             val = strip (tl (dropWhile (\<lambda>c. c \<noteq> CHR ''='') line))
         in case ps_section st of
              Some InterfaceSection \<Rightarrow> st\<lparr>ps_interface := (ps_interface st)(key \<mapsto> val)\<rparr>
            | Some PeerSection \<Rightarrow>
                st\<lparr>ps_peers := butlast (ps_peers st) @ [(last (ps_peers st))(key \<mapsto> val)]\<rparr>
            | None \<Rightarrow> st))"

text \<open>
  The file is given by its text, or \<^const>\<open>None\<close> when the path does not exist. The path
  itself only appears in the message.
\<close>

definition parse_wireguard_config :: "string option \<Rightarrow> string \<Rightarrow> exn + wg_config" where
  "parse_wireguard_config file path =
     (case file of
        None \<Rightarrow> Inl (RouteGuardError (''WireGuard config not found: '' @ path))
      | Some text \<Rightarrow>
          (let st = fold parse_line (splitlines text)
                      \<lparr>ps_interface = Map.empty, ps_peers = [], ps_section = None\<rparr>
           in if ps_peers st = []
              then Inl (RouteGuardError ''No [Peer] section found in WireGuard config.'')
              else Inr \<lparr>interface = ps_interface st, peers = ps_peers st\<rparr>))"

text \<open>
  \<^verbatim>\<open>Path(path).name\<close>: the last component of the path, empty and \<^verbatim>\<open>.\<close> components aside;
  then the suffix \<^verbatim>\<open>.conf\<close> is cut off.
\<close>

definition path_name :: "string \<Rightarrow> string" where
  "path_name path =
     (case rev (filter (\<lambda>p. p \<noteq> [] \<and> p \<noteq> ''.'') (split_on CHR ''/'' path)) of
        [] \<Rightarrow> []
      | p # ps \<Rightarrow> p)"

definition infer_iface_name_from_wg_path :: "string \<Rightarrow> string" where
  "infer_iface_name_from_wg_path path =
     (let name = path_name path in
      if 5 \<le> length name \<and> drop (length name - 5) name = ''.conf''
      then take (length name - 5) name else name)"

subsection \<open>Endpoints: \<^verbatim>\<open>parse_endpoint\<close> and \<^verbatim>\<open>resolve_host_ips\<close>\<close>

definition is_digit :: "char \<Rightarrow> bool" where
  "is_digit c \<longleftrightarrow> c \<in> set ''0123456789''"

text \<open>\<^verbatim>\<open>s.isdigit()\<close>: non-empty and all digits.\<close>

definition isdigit :: "string \<Rightarrow> bool" where
  "isdigit s \<longleftrightarrow> s \<noteq> [] \<and> list_all is_digit s"

definition digit_value :: "char \<Rightarrow> int" where
  "digit_value c = int (length (takeWhile (\<lambda>d. d \<noteq> c) ''0123456789''))"

text \<open>\<^verbatim>\<open>int(s)\<close> for a string of digits.\<close>

definition int_of_digits :: "string \<Rightarrow> int" where
  "int_of_digits s = fold (\<lambda>c n. 10 * n + digit_value c) s 0"

text \<open>The text after the last colon, and the text before it.\<close>

definition after_last_colon :: "string \<Rightarrow> string" where
  "after_last_colon s = rev (takeWhile (\<lambda>c. c \<noteq> CHR '':'') (rev s))"

definition before_last_colon :: "string \<Rightarrow> string" where
  "before_last_colon s = rev (tl (dropWhile (\<lambda>c. c \<noteq> CHR '':'') (rev s)))"

text \<open>
  \<^verbatim>\<open>re.match(r'^\[(.+)\]:(\d+)$', s)\<close> for a string that begins with a bracket and has no
  line feed at its end (it was stripped). The port group holds digits only, so it is the
  text after the last colon; what stands before that colon has to end with the closing
  bracket, and the host group between the brackets has to be non-empty and free of line
  feeds, which the dot does not match. The result is the two groups.
\<close>

definition match_bracketed :: "string \<Rightarrow> (string \<times> string) option" where
  "match_bracketed s =
     (let digits = after_last_colon s;
          front = before_last_colon s;
          host = butlast (tl front)
      in if CHR '':'' \<in> set s \<and> isdigit digits \<and> 2 \<le> length front \<and> last front = CHR '']''
            \<and> host \<noteq> [] \<and> CHR 0x0A \<notin> set host
         then Some (host, digits) else None)"

definition parse_endpoint :: "string \<Rightarrow> exn + (string \<times> int)" where
  "parse_endpoint endpoint0 =
     (let endpoint = strip endpoint0 in
      if endpoint \<noteq> [] \<and> hd endpoint = CHR ''[''
      then (case match_bracketed endpoint of
              None \<Rightarrow> Inl (RouteGuardError (''Invalid endpoint format: '' @ endpoint))
            | Some (host, digits) \<Rightarrow> Inr (host, int_of_digits digits))
      else if count_list endpoint CHR '':'' = 1
      then (let host = before_last_colon endpoint;
                port = after_last_colon endpoint
            in if \<not> isdigit port
               then Inl (RouteGuardError (''Invalid endpoint port: '' @ endpoint))
               else Inr (host, int_of_digits port))
      else Inl (RouteGuardError (''Unsupported endpoint format: '' @ endpoint)))"

text \<open>
  What the resolver asks the host: whether \<^verbatim>\<open>inet_pton\<close> accepts a string as an IPv4 or
  IPv6 literal, and what \<^verbatim>\<open>getaddrinfo\<close> answers for a name: the message of its error, or
  the addresses of the entries it returns, in order.
\<close>

record resolver =
  is_ip_literal :: "string \<Rightarrow> bool"
  getaddrinfo :: "string \<Rightarrow> string + string list"

text \<open>The loop that collects the addresses, each once, in the order they first appear.\<close>

fun collect_ips :: "string list \<Rightarrow> string list \<Rightarrow> string list" where
  "collect_ips ips [] = ips"
| "collect_ips ips (a # as) = collect_ips (if a \<notin> set ips then ips @ [a] else ips) as"

definition resolve_host_ips :: "resolver \<Rightarrow> string \<Rightarrow> exn + string list" where
  "resolve_host_ips env host =
     (if is_ip_literal env host then Inr [host]
      else case getaddrinfo env host of
             Inl msg \<Rightarrow> Inl (RouteGuardError (''Cannot resolve endpoint host '' @ [CHR 0x27] @ host
                                               @ [CHR 0x27] @ '': '' @ msg))
           | Inr infos \<Rightarrow>
               (let ips = collect_ips [] infos in
                if ips = [] then Inl (RouteGuardError (''No IPs resolved for '' @ host))
                else Inr ips))"

subsection \<open>The configuration: \<^verbatim>\<open>build_generated_config_from_wg\<close>\<close>

type_synonym endpoint_key = "string \<times> int \<times> string"

text \<open>The inner loop over the addresses of one peer; the state is \<^verbatim>\<open>endpoints\<close> and \<^verbatim>\<open>seen\<close>.\<close>

fun add_ips :: "string list \<Rightarrow> int \<Rightarrow> EndpointRule list \<times> endpoint_key set
                  \<Rightarrow> EndpointRule list \<times> endpoint_key set" where
  "add_ips [] p st = st"
| "add_ips (a # as) p (endpoints, seen) =
     add_ips as p
       (if (a, p, ''udp'') \<notin> seen
        then (endpoints @ [\<lparr>ip = a, port = p, proto = ''udp''\<rparr>], insert (a, p, ''udp'') seen)
        else (endpoints, seen))"

text \<open>The outer loop over the peers; an exception of the parser or resolver ends it.\<close>

fun peers_loop :: "resolver \<Rightarrow> (string \<rightharpoonup> string) list \<Rightarrow> EndpointRule list \<times> endpoint_key set
                     \<Rightarrow> exn + EndpointRule list \<times> endpoint_key set" where
  "peers_loop env [] st = Inr st"
| "peers_loop env (peer # rest) st =
     (case peer ''Endpoint'' of
        None \<Rightarrow> peers_loop env rest st
      | Some ep \<Rightarrow>
          if ep = [] then peers_loop env rest st
          else (case parse_endpoint ep of
                  Inl e \<Rightarrow> Inl e
                | Inr (host, p) \<Rightarrow>
                    (case resolve_host_ips env host of
                       Inl e \<Rightarrow> Inl e
                     | Inr ips \<Rightarrow> peers_loop env rest (add_ips ips p st))))"

text \<open>
  The arguments after the resolver and the file are those of the Python function, in
  its order; \<^verbatim>\<open>vpn_iface\<close> may be \<^verbatim>\<open>None\<close>.
\<close>

definition build_generated_config_from_wg ::
  "resolver \<Rightarrow> string option \<Rightarrow> string \<Rightarrow> string \<Rightarrow> string option \<Rightarrow> bool \<Rightarrow> bool \<Rightarrow> int
     \<Rightarrow> exn + GeneratedConfig" where
  "build_generated_config_from_wg env file wg_config_path md iface_arg lan dhcp interval =
     (case parse_wireguard_config file wg_config_path of
        Inl e \<Rightarrow> Inl e
      | Inr data \<Rightarrow>
          (let iface_name = (case iface_arg of
                               None \<Rightarrow> infer_iface_name_from_wg_path wg_config_path
                             | Some i \<Rightarrow> if i \<noteq> [] then i
                                         else infer_iface_name_from_wg_path wg_config_path)
           in case peers_loop env (peers data) ([], {}) of
                Inl e \<Rightarrow> Inl e
              | Inr (endpoints, seen) \<Rightarrow>
                  if endpoints = []
                  then Inl (RouteGuardError ''No Peer Endpoint found in WireGuard config.'')
                  else Inr \<lparr>mode = md, vpn_iface = iface_name, poll_interval_sec = max 1 interval,
                            allow_lan = lan, allow_dhcp = dhcp, vpn_endpoints = Some endpoints\<rparr>))"

subsection \<open>The endpoint list as it is described\<close>

text \<open>
  The rules one peer contributes: none without an \<^verbatim>\<open>Endpoint\<close> value, otherwise one
  \<open>udp\<close> rule per resolved address of the endpoint, with its port; or the error of the
  endpoint parser or of the resolver.
\<close>

definition peer_rules :: "resolver \<Rightarrow> (string \<rightharpoonup> string) \<Rightarrow> exn + EndpointRule list" where
  "peer_rules env peer =
     (case peer ''Endpoint'' of
        None \<Rightarrow> Inr []
      | Some ep \<Rightarrow>
          if ep = [] then Inr []
          else (case parse_endpoint ep of
                  Inl e \<Rightarrow> Inl e
                | Inr (host, p) \<Rightarrow>
                    (case resolve_host_ips env host of
                       Inl e \<Rightarrow> Inl e
                     | Inr ips \<Rightarrow> Inr (map (\<lambda>a. \<lparr>ip = a, port = p, proto = ''udp''\<rparr>) ips))))"

definition peer_rule_list :: "resolver \<Rightarrow> (string \<rightharpoonup> string) \<Rightarrow> EndpointRule list" where
  "peer_rule_list env peer = (case peer_rules env peer of Inl e \<Rightarrow> [] | Inr rs \<Rightarrow> rs)"

definition all_peer_rules :: "resolver \<Rightarrow> (string \<rightharpoonup> string) list \<Rightarrow> EndpointRule list" where
  "all_peer_rules env ps = concat (map (peer_rule_list env) ps)"

text \<open>Of equal entries the first is kept, and the order of the entries kept is unchanged.\<close>

fun keep_first :: "'a list \<Rightarrow> 'a list" where
  "keep_first [] = []"
| "keep_first (x # xs) = x # keep_first (filter (\<lambda>y. y \<noteq> x) xs)"

definition endpoint_key_of :: "EndpointRule \<Rightarrow> endpoint_key" where
  "endpoint_key_of e = (ip e, port e, proto e)"

text \<open>A file with one peer, and a host on which only address literals resolve.\<close>

definition sample_wg_file :: string where
  "sample_wg_file =
     ''[Interface]'' @ [newline] @ ''PrivateKey = abc='' @ [newline] @ ''# the server'' @ [newline]
     @ ''[Peer]'' @ [newline] @ ''Endpoint = 203.0.113.5:51820'' @ [newline]"

definition literal_resolver :: resolver where
  "literal_resolver =
     \<lparr>is_ip_literal = (\<lambda>h. h = ''203.0.113.5''), getaddrinfo = (\<lambda>h. Inl ''Name or service not known'')\<rparr>"

text \<open>
  Both iterations above, seen as one function: the entries of a list are added to those kept so
  far, unless they are among them already.
\<close>

fun keep_into :: "'a list \<Rightarrow> 'a list \<Rightarrow> 'a list" where
  "keep_into acc [] = acc"
| "keep_into acc (x # xs) = keep_into (if x \<notin> set acc then acc @ [x] else acc) xs"

definition udp_rule :: "int \<Rightarrow> string \<Rightarrow> EndpointRule" where
  "udp_rule p a = \<lparr>ip = a, port = p, proto = ''udp''\<rparr>"

text \<open>A file whose only peer has no endpoint.\<close>

definition bare_wg_file :: string where
  "bare_wg_file = ''[Peer]'' @ [newline] @ ''PublicKey = k'' @ [newline]"

section \<open>Verified properties\<close>

subsection \<open>Each loop as a list function\<close>

lemma suspicious_routes_loop_eq:
  "suspicious_routes_loop out rs iface ipv6 = out @ map alert_of (filter (flagged iface ipv6) rs)"
  by (induction rs arbitrary: out) simp_all

lemma append_endpoint_rules_eq:
  "append_endpoint_rules lines eps = lines @ map endpoint_rule eps"
  by (induction eps arbitrary: lines) simp_all

lemma flagged_iff: "flagged iface ipv6 r = split_default_leak iface ipv6 r"
  by (auto simp: flagged_def split_default_leak_def targets_def split: option.splits)

lemma suspicious_routes_eq:
  "suspicious_routes routes iface ipv6 = map alert_of (filter (flagged iface ipv6) routes)"
  by (simp add: suspicious_routes_def suspicious_routes_loop_eq)

lemma chain_rules_eq:
  "chain_rules conf =
     [loopback_rule, tunnel_rule (remove_char dquote (vpn_iface conf)), link_local_rule]
     @ (if allow_dhcp conf then dhcp_rules else [])
     @ (if allow_lan conf then lan_rules else [])
     @ map endpoint_rule (endpoints_or_empty conf)
     @ [drop_rule (remove_char dquote (vpn_iface conf))]"
  by (simp add: chain_rules_def build_nft_lines_def Let_def append_endpoint_rules_eq
        table_header_lines_def butlast_append)

lemma build_nft_lines_eq:
  "build_nft_lines conf = table_header_lines @ chain_rules conf @ [''  }'', ''}'']"
  by (simp add: chain_rules_def build_nft_lines_def Let_def append_endpoint_rules_eq
        table_header_lines_def butlast_append)

subsection \<open>The rule compiler\<close>

text \<open>
  C2. For every configuration the script is the three header lines, the rules of the
  chain and the two closing braces, joined by newlines; and the rules of the chain are, in
  this order: the loopback accept, the accept on the (sanitised) tunnel interface, the IPv6
  link-local and multicast accept, the two DHCP accepts when \<open>allow_dhcp\<close> holds and nothing
  otherwise, the private IPv4 and IPv6 accepts when \<open>allow_lan\<close> holds and nothing otherwise,
  one accept per endpoint in list order, and the drop of everything that does not leave
  through the tunnel interface. So the first three rules and the last one are the same
  for every combination of the two flags.
\<close>

theorem build_nft_script_rule_order:
  "build_nft_script conf
     = join [newline] (table_header_lines @ chain_rules conf @ [''  }'', ''}'']) @ [newline]
   \<and> chain_rules conf =
        [loopback_rule, tunnel_rule (remove_char dquote (vpn_iface conf)), link_local_rule]
        @ (if allow_dhcp conf then dhcp_rules else [])
        @ (if allow_lan conf then lan_rules else [])
        @ map endpoint_rule (endpoints_or_empty conf)
        @ [drop_rule (remove_char dquote (vpn_iface conf))]
   \<and> chain_rules conf ! 0 = loopback_rule
   \<and> chain_rules conf ! 1 = tunnel_rule (remove_char dquote (vpn_iface conf))
   \<and> chain_rules conf ! 2 = link_local_rule
   \<and> last (chain_rules conf) = drop_rule (remove_char dquote (vpn_iface conf))"
proof -
  have a: "build_nft_script conf
             = join [newline] (table_header_lines @ chain_rules conf @ [''  }'', ''}'']) @ [newline]"
    by (simp add: build_nft_script_def build_nft_lines_eq)
  have l: "last (chain_rules conf) = drop_rule (remove_char dquote (vpn_iface conf))"
    by (simp add: chain_rules_eq)
  have n: "chain_rules conf ! 0 = loopback_rule"
    "chain_rules conf ! 1 = tunnel_rule (remove_char dquote (vpn_iface conf))"
    "chain_rules conf ! 2 = link_local_rule"
    by (simp_all add: chain_rules_eq)
  from a l n chain_rules_eq [of conf] show ?thesis by blast
qed

theorem build_nft_script_rule_order_witness:
  \<open>chain_rules (sample_cfg ''protect'') =
     [''    oifname "lo" accept'',
      ''    oifname "wg0" accept'',
      ''    ip6 daddr { fe80::/10, ff00::/8 } accept'',
      ''    udp sport 68 udp dport 67 accept'',
      ''    udp sport 546 udp dport 547 accept'',
      ''    ip daddr { 10.0.0.0/8, 172.16.0.0/12, 192.168.0.0/16 } accept'',
      ''    ip6 daddr fc00::/7 accept'',
      ''    ip daddr 203.0.113.5 udp dport 51820 accept'',
      ''    oifname != "wg0" drop'']\<close>
proof -
  have p: "str_int 51820 = ''51820''"
    by (simp add: str_int_def digits_of_nat.simps)
  have e: "endpoint_rule \<lparr>ip = ''203.0.113.5'', port = 51820, proto = ''udp''\<rparr>
             = ''    ip daddr 203.0.113.5 udp dport 51820 accept''"
    by (simp add: endpoint_rule_def p lower_def lower_char_def)
  from build_nft_script_rule_order [of "sample_cfg ''protect''"] show ?thesis
    by (simp add: sample_cfg_def endpoints_or_empty_def e loopback_rule_def tunnel_rule_def
          link_local_rule_def dhcp_rules_def lan_rules_def drop_rule_def remove_char_def
          dquote_def LINK_LOCAL_V6_def PRIVATE_V4_CIDRS_def PRIVATE_V6_CIDR_def)
qed

subsection \<open>The leak detector\<close>

text \<open>
  C4. For every route list, tunnel interface and family, the detector returns one alert
  for each route, in list order, whose destination is one of the split-default prefixes of
  the family (\<open>0.0.0.0/1\<close>, \<open>128.0.0.0/1\<close> for IPv4; \<open>::/1\<close>, \<open>8000::/1\<close> for IPv6) and whose
  egress device (the value of \<^verbatim>\<open>dev\<close>, or of \<^verbatim>\<open>oif\<close> when \<^verbatim>\<open>dev\<close> is missing or empty) is set
  and differs from the tunnel interface, and for no other route. The
  route to \<open>0.0.0.0/1\<close> over \<open>eth0\<close> is flagged with tunnel interface \<open>wg0\<close>, the same
  destination over \<open>wg0\<close> is not, and an empty route list gives no alert.
\<close>

theorem suspicious_routes_flags_exactly:
  "suspicious_routes routes iface ipv6 = map alert_of (filter (split_default_leak iface ipv6) routes)
   \<and> suspicious_routes [ [''dst'' \<mapsto> ''0.0.0.0/1'', ''dev'' \<mapsto> ''eth0''] ] ''wg0'' False
       = [''0.0.0.0/1 via dev=eth0 gateway=-'']
   \<and> suspicious_routes [ [''dst'' \<mapsto> ''0.0.0.0/1'', ''dev'' \<mapsto> ''wg0''] ] ''wg0'' False = []
   \<and> suspicious_routes [] iface ipv6 = []"
proof -
  have fl: "flagged iface ipv6 = split_default_leak iface ipv6" for iface ipv6
    by (rule ext) (rule flagged_iff)
  have a: "suspicious_routes routes iface ipv6
             = map alert_of (filter (split_default_leak iface ipv6) routes)"
    by (simp add: suspicious_routes_eq fl)
  have b: "suspicious_routes [ [''dst'' \<mapsto> ''0.0.0.0/1'', ''dev'' \<mapsto> ''eth0''] ] ''wg0'' False
       = [''0.0.0.0/1 via dev=eth0 gateway=-'']"
    by (simp add: suspicious_routes_def flagged_def targets_def egress_dev_def alert_of_def)
  have c: "suspicious_routes [ [''dst'' \<mapsto> ''0.0.0.0/1'', ''dev'' \<mapsto> ''wg0''] ] ''wg0'' False = []"
    by (simp add: suspicious_routes_def flagged_def targets_def egress_dev_def alert_of_def)
  have d: "suspicious_routes [] iface ipv6 = []"
    by (simp add: suspicious_routes_def)
  from a b c d show ?thesis by blast
qed

theorem suspicious_routes_flags_exactly_witness:
  "suspicious_routes
     [ [''dst'' \<mapsto> ''8000::/1'', ''oif'' \<mapsto> ''eth1'', ''gateway'' \<mapsto> ''fe80::1''],
      [''dst'' \<mapsto> ''::/1'', ''dev'' \<mapsto> ''wg0''],
      [''dst'' \<mapsto> ''default'', ''dev'' \<mapsto> ''eth1''],
      [''dst'' \<mapsto> ''::/1''] ] ''wg0'' True
     = [''8000::/1 via dev=eth1 gateway=fe80::1'']"
  using suspicious_routes_flags_exactly
    [of "[ [''dst'' \<mapsto> ''8000::/1'', ''oif'' \<mapsto> ''eth1'', ''gateway'' \<mapsto> ''fe80::1''],
          [''dst'' \<mapsto> ''::/1'', ''dev'' \<mapsto> ''wg0''],
          [''dst'' \<mapsto> ''default'', ''dev'' \<mapsto> ''eth1''],
          [''dst'' \<mapsto> ''::/1''] ]" "''wg0''" True]
  by (simp add: split_default_leak_def egress_dev_def alert_of_def)

subsection \<open>Effects of the operations on the world\<close>

lemma runner_logger_keeps [simp]:
  "calls (snd (runner_logger m w)) = calls w"
  "state_files (snd (runner_logger m w)) = state_files w"
  "table (snd (runner_logger m w)) = table w"
  "nft_installed (snd (runner_logger m w)) = nft_installed w"
  "wg_quick_installed (snd (runner_logger m w)) = wg_quick_installed w"
  "spawn_faults (snd (runner_logger m w)) = spawn_faults w"
  "log_faults (snd (runner_logger m w)) = log_faults w"
  "iface_polls (snd (runner_logger m w)) = iface_polls w"
  "wg_up_result (snd (runner_logger m w)) = wg_up_result w"
  by (simp_all add: runner_logger_def)

lemma runner_logger_ok:
  "log_faults w = {} \<Longrightarrow> runner_logger m w = (Inr (), w\<lparr>logged := logged w @ [m]\<rparr>)"
  by (simp add: runner_logger_def)

lemma runner_logger_result:
  "runner_logger m w = (res, w') \<Longrightarrow>
     calls w' = calls w \<and> state_files w' = state_files w \<and> table w' = table w
     \<and> nft_installed w' = nft_installed w \<and> spawn_faults w' = spawn_faults w
     \<and> log_faults w' = log_faults w
     \<and> (res = Inr () \<longrightarrow> logged w' = logged w @ [m])
     \<and> (log_faults w = {} \<longrightarrow> res = Inr ())"
  by (auto simp: runner_logger_def split: if_splits)

lemma note_call_fields [simp]:
  "calls (note_call c w) = calls w @ [c]"
  "state_files (note_call c w) = state_files w"
  "table (note_call c w) = table w"
  "nft_installed (note_call c w) = nft_installed w"
  "wg_quick_installed (note_call c w) = wg_quick_installed w"
  "spawn_faults (note_call c w) = spawn_faults w"
  "log_faults (note_call c w) = log_faults w"
  "logged (note_call c w) = logged w"
  by (simp_all add: note_call_def)











lemmas run_eval =
  run_def run_body_def run_prologue_def teardown_def teardown_firewall_def
  teardown_tunnel_def try_finally_def try_except_def and_then_def succeed_def raise_def
  wait_for_iface_def spawn_def remove_nft_rules_def wg_quick_down_def wg_quick_up_def
  remove_state_def STATE_PATHS_def unlink_quietly_def note_call_def runner_logger_def
  silent_logger_def idle_host_def sample_runner_def sample_cfg_def Let_def
  apply_nft_rules_def routeguard_table_exists_def write_state_def state_path_of_def
  monitoring_def

subsection \<open>Teardown\<close>

text \<open>
  C1. The code does not keep this promise on every exit path. A runner in mode \<open>monitor\<close>
  that is to bring the tunnel down on exit is stopped before its first cycle, on a host
  where everything else works and the state file has been written. In the teardown
  \<^verbatim>\<open>wg_quick_down\<close> runs the command and calls the logger, which raises; the exception is
  caught, and the handler calls the logger for its warning, which raises again. This
  second exception leaves the \<^verbatim>\<open>finally\<close> block before \<^verbatim>\<open>remove_state\<close>: the run ends with
  the exception in place of the result 0, \<^verbatim>\<open>remove_state\<close> was never called, and the state
  file is still there.
\<close>

theorem run_leaves_state_file_when_logger_raises:
  "fst (run (sample_runner ''monitor'') [] closed_pipe_host) = Inl (OSError ''logger failed'')
   \<and> calls (snd (run (sample_runner ''monitor'') [] closed_pipe_host))
       = [CallWriteState, CallWgDown]
   \<and> state_files (snd (run (sample_runner ''monitor'') [] closed_pipe_host)) = {RunPath}"
  by (simp add: run_eval closed_pipe_host_def)

subsection \<open>The firewall controller\<close>









text \<open>The same happens on that host when the process starts and the logger raises.\<close>

lemma remove_nft_rules_logger_raises:
  "fst (remove_nft_rules runner_logger
          (idle_host\<lparr>log_faults :=
             {''nftables table inet routeguard was not present (nothing to remove).''}\<rparr>))
     = Inl (OSError ''logger failed'')"
  by (simp add: idle_host_def remove_nft_rules_def Let_def and_then_def spawn_def note_call_def
        runner_logger_def)



subsection \<open>Mode \<open>off\<close>\<close>











text \<open>
  The other two provisos are needed as well: without tunnel bring-up, the run raises when
  the \<^verbatim>\<open>nft\<close> process cannot be started, and when the logger raises on the last line of
  the mode.
\<close>

lemma run_off_mode_provisos_needed:
  "fst (run (sample_runner ''off'') [] (idle_host\<lparr>spawn_faults := {NftDelete}\<rparr>))
     = Inl (OSError ''cannot start process'')"
  "fst (run (sample_runner ''off'') [] (idle_host\<lparr>log_faults := {''Off mode: exiting.''}\<rparr>))
     = Inl (OSError ''logger failed'')"
  by (simp_all add: run_eval)


subsection \<open>The monitor loop\<close>

lemma log_each_result:
  "log_each ms w = (Inr (), w') \<Longrightarrow> logged w' = logged w @ ms"
proof (induction ms arbitrary: w)
  case Nil
  then show ?case by simp
next
  case (Cons m ms)
  obtain rl wl where l: "runner_logger m w = (rl, wl)" by fastforce
  from Cons.prems l have rl: "rl = Inr ()" and rest: "log_each ms wl = (Inr (), w')"
    by (cases rl; simp)+
  from runner_logger_result [OF l] rl have "logged wl = logged w @ [m]" by simp
  with Cons.IH [OF rest] show ?case by simp
qed

lemma log_each_ok:
  "log_faults w = {} \<Longrightarrow> log_each ms w = (Inr (), w\<lparr>logged := logged w @ ms\<rparr>)"
proof (induction ms arbitrary: w)
  case Nil
  then show ?case by simp
next
  case (Cons m ms)
  have "log_faults (w\<lparr>logged := logged w @ [m]\<rparr>) = {}" using Cons.prems by simp
  from Cons.IH [OF this] Cons.prems show ?case by (simp add: runner_logger_ok)
qed

lemma is_alert_line_alert [simp]: "is_alert_line (alert_line m)"
  by (simp add: is_alert_line_def alert_line_def)

lemma filter_alert_lines [simp]: "filter is_alert_line (map alert_line ms) = map alert_line ms"
  by (induction ms) simp_all

lemma alert_line_inj [simp]: "alert_line a = alert_line b \<longleftrightarrow> a = b"
  by (simp add: alert_line_def)

lemma remove_silent_logged:
  "remove_nft_rules silent_logger w = (res, w') \<Longrightarrow> logged w' = logged w"
  by (auto simp: remove_nft_rules_def Let_def and_then_def spawn_def note_call_def silent_logger_def
      split: if_splits)

lemma apply_nft_rules_logged:
  assumes "apply_nft_rules c runner_logger u = (Inr (), u')"
  shows "\<exists>rest. logged u' = logged u @ [''Applied nftables rules for iface '' @ rest]"
proof -
  obtain r1 u1 where rm: "remove_nft_rules silent_logger (note_call CallApply u) = (r1, u1)"
    by fastforce
  have l1: "logged u1 = logged u" using remove_silent_logged [OF rm] by simp
  from assms rm l1 show ?thesis
    by (auto simp: apply_nft_rules_def Let_def and_then_def spawn_def routeguard_table_exists_def
        runner_logger_def split: if_splits sum.splits prod.splits)
qed

lemma exists_keeps_world:
  "routeguard_table_exists v = (res, v') \<Longrightarrow> v' = v"
  by (auto simp: routeguard_table_exists_def and_then_def spawn_def split: if_splits)

lemma heal_logged:
  assumes "heal r v = (Inr (), v1)"
  shows "\<exists>ms. logged v1 = logged v @ ms \<and> filter is_alert_line ms = []"
proof (cases "mode (cfg r) = ''protect''")
  case False
  with assms have "v1 = v" by (simp add: heal_def succeed_def)
  then show ?thesis by simp
next
  case True
  obtain re ve where e: "routeguard_table_exists v = (re, ve)" by fastforce
  have ve: "ve = v" using exists_keeps_world [OF e] .
  show ?thesis
  proof (cases re)
    case (Inl x)
    with assms True e show ?thesis by (simp add: heal_def and_then_def)
  next
    case (Inr present)
    show ?thesis
    proof (cases present)
      case True
      with assms \<open>mode (cfg r) = ''protect''\<close> e Inr ve have "v1 = v"
        by (simp add: heal_def and_then_def succeed_def)
      then show ?thesis by simp
    next
      case False
      obtain rl vl where l: "runner_logger ''WARNING: nft table missing, re-applying rules.'' v = (rl, vl)"
        by fastforce
      from assms \<open>mode (cfg r) = ''protect''\<close> e Inr ve False l
      have rl: "rl = Inr ()" and a: "apply_nft_rules (cfg r) runner_logger vl = (Inr (), v1)"
        by (cases rl; simp add: heal_def and_then_def)+
      from runner_logger_result [OF l] rl
      have "logged vl = logged v @ [''WARNING: nft table missing, re-applying rules.'']" by simp
      with apply_nft_rules_logged [OF a] obtain rest where
        "logged v1 = logged v @ [''WARNING: nft table missing, re-applying rules.'',
                                 ''Applied nftables rules for iface '' @ rest]"
        by auto
      then show ?thesis by (simp add: is_alert_line_def)
    qed
  qed
qed

lemma scan_routes_result:
  "scan_routes r c v = (Inr cur, v') \<Longrightarrow> cur = scan_result r c \<and> v' = v"
  by (auto simp: scan_routes_def ip_json_routes_def and_then_def succeed_def spawn_def scan_result_def
      split: if_splits)

lemma scan_routes_ok:
  "IpRouteShow False \<notin> spawn_faults v \<Longrightarrow> IpRouteShow True \<notin> spawn_faults v \<Longrightarrow>
     scan_routes r c v = (Inr (scan_result r c), v)"
  by (simp add: scan_routes_def ip_json_routes_def and_then_def succeed_def spawn_def scan_result_def)

lemma tamper_fields [simp]:
  "logged (tamper c w) = logged w" "spawn_faults (tamper c w) = spawn_faults w"
  "log_faults (tamper c w) = log_faults w"
  by (simp_all add: tamper_def)

lemma monitor_iteration_logged:
  assumes "monitor_iteration r warned c w = (Inr warned', w')"
  shows "warned' = scan_result r c
     \<and> (\<exists>ms. logged w' = logged w @ ms
            \<and> filter is_alert_line ms = map alert_line (new_alerts warned (scan_result r c)))"
proof -
  obtain rh vh where h: "heal r (tamper c w) = (rh, vh)" by fastforce
  from assms h obtain u where rh: "rh = Inr u"
    by (cases rh) (auto simp: monitor_iteration_def and_then_def)
  obtain rs vs where sc: "scan_routes r c vh = (rs, vs)" by fastforce
  from assms h rh sc obtain cur where rs: "rs = Inr cur"
    by (cases rs) (auto simp: monitor_iteration_def and_then_def)
  from scan_routes_result sc rs have cur: "cur = scan_result r c" and vs: "vs = vh" by auto
  obtain rl vl where l: "log_each (map alert_line (new_alerts warned cur)) vs = (rl, vl)"
    by fastforce
  from assms h rh sc rs l have rl: "rl = Inr ()" and w': "w' = vl" and wd: "warned' = cur"
    by (cases rl; simp add: monitor_iteration_def and_then_def succeed_def)+
  from log_each_result l rl
  have ll: "logged vl = logged vs @ map alert_line (new_alerts warned cur)" by simp
  from h rh heal_logged [of r "tamper c w" vh] obtain ms where
    ms: "logged vh = logged w @ ms" "filter is_alert_line ms = []" by auto
  have "logged w' = logged w @ (ms @ map alert_line (new_alerts warned (scan_result r c)))"
    by (simp add: w' ll vs ms cur)
  moreover have "filter is_alert_line (ms @ map alert_line (new_alerts warned (scan_result r c)))
        = map alert_line (new_alerts warned (scan_result r c))"
    by (simp add: ms)
  ultimately show ?thesis using wd cur by blast
qed

lemma monitor_loop_logged:
  "monitor_loop r warned cs w = (Inr (), w') \<Longrightarrow>
     \<exists>ms. logged w' = logged w @ ms \<and> filter is_alert_line ms = spec_alert_log r warned cs"
proof (induction cs arbitrary: warned w)
  case Nil
  then show ?case by simp
next
  case (Cons c cs)
  obtain ri wi where it: "monitor_iteration r warned c w = (ri, wi)" by fastforce
  from Cons.prems it obtain cur where ri: "ri = Inr cur"
    by (cases ri) auto
  from Cons.prems it ri have rest: "monitor_loop r cur cs wi = (Inr (), w')" by simp
  from monitor_iteration_logged [of r warned c w cur wi] it ri obtain ms1 where
    cur: "cur = scan_result r c" and m1: "logged wi = logged w @ ms1"
    "filter is_alert_line ms1 = map alert_line (new_alerts warned (scan_result r c))" by auto
  from Cons.IH [OF rest] obtain ms2 where
    m2: "logged w' = logged wi @ ms2" "filter is_alert_line ms2 = spec_alert_log r cur cs" by auto
  have "logged w' = logged w @ (ms1 @ ms2)" using m1 m2 by simp
  moreover have "filter is_alert_line (ms1 @ ms2) = spec_alert_log r warned (c # cs)"
    using m1 m2 cur by (simp add: new_alerts_def)
  ultimately show ?case by blast
qed

lemma alerts_logged_append:
  "logged w' = logged w @ ms \<Longrightarrow> alerts_logged w w' = filter is_alert_line ms"
  by (simp add: alerts_logged_def)

lemma finite_scan_result [simp]: "finite (scan_result r c)"
  by (simp add: scan_result_def)

lemma monitor_iteration_not_protect:
  assumes "mode (cfg r) \<noteq> ''protect''" "IpRouteShow False \<notin> spawn_faults w"
    "IpRouteShow True \<notin> spawn_faults w" "log_faults w = {}"
  shows "monitor_iteration r warned c w
     = (Inr (scan_result r c),
        (tamper c w)\<lparr>logged := logged w @ map alert_line (new_alerts warned (scan_result r c))\<rparr>)"
  using assms
  by (simp add: monitor_iteration_def and_then_def heal_def succeed_def scan_routes_ok log_each_ok)

lemma monitor_loop_not_protect:
  "mode (cfg r) \<noteq> ''protect'' \<Longrightarrow> IpRouteShow False \<notin> spawn_faults w \<Longrightarrow>
   IpRouteShow True \<notin> spawn_faults w \<Longrightarrow> log_faults w = {} \<Longrightarrow>
   fst (monitor_loop r warned cs w) = Inr ()"
  by (induction cs arbitrary: warned w) (simp_all add: monitor_iteration_not_protect)

text \<open>
  C8. A turn of the monitor loop that reaches its end returns the current scan result as
  the new warned set, and the alert lines it logs are exactly the lines of the alerts
  that are in the current scan result and not in the warned set it started with, each
  once, in sorted order. Over a whole run of the loop the alert lines are therefore those
  of \<^const>\<open>spec_alert_log\<close>: an alert that stays is not logged again, one that was
  absent from the previous result is logged, also when it had been logged earlier. In
  the modes without firewall, when \<^verbatim>\<open>ip\<close> can be started and the logger does not raise,
  every turn and the whole loop do reach their end.
\<close>

theorem monitor_alerts:
  "(monitor_iteration r warned c w = (Inr warned', w') \<longrightarrow>
      warned' = scan_result r c
      \<and> alerts_logged w w' = map alert_line (sorted_list_of_set (scan_result r c - warned))
      \<and> (\<forall>a. alert_line a \<in> set (alerts_logged w w') \<longleftrightarrow> a \<in> scan_result r c \<and> a \<notin> warned)
      \<and> distinct (alerts_logged w w'))
   \<and> (monitor_loop r warned cs w = (Inr (), w'') \<longrightarrow>
      alerts_logged w w'' = spec_alert_log r warned cs)
   \<and> (mode (cfg r) \<noteq> ''protect'' \<and> IpRouteShow False \<notin> spawn_faults w
        \<and> IpRouteShow True \<notin> spawn_faults w \<and> log_faults w = {} \<longrightarrow>
      fst (monitor_iteration r warned c w) = Inr (scan_result r c)
      \<and> fst (monitor_loop r warned cs w) = Inr ())"
proof -
  have a: "warned' = scan_result r c
      \<and> alerts_logged w w' = map alert_line (sorted_list_of_set (scan_result r c - warned))
      \<and> (\<forall>a. alert_line a \<in> set (alerts_logged w w') \<longleftrightarrow> a \<in> scan_result r c \<and> a \<notin> warned)
      \<and> distinct (alerts_logged w w')"
    if it: "monitor_iteration r warned c w = (Inr warned', w')"
  proof -
    from monitor_iteration_logged [OF it] obtain ms where
      wd: "warned' = scan_result r c" and l: "logged w' = logged w @ ms"
      and f: "filter is_alert_line ms = map alert_line (new_alerts warned (scan_result r c))"
      by auto
    have al: "alerts_logged w w' = map alert_line (sorted_list_of_set (scan_result r c - warned))"
      using alerts_logged_append [OF l] f by (simp add: new_alerts_def)
    have fin: "finite (scan_result r c - warned)" by simp
    have m: "alert_line a \<in> set (alerts_logged w w') \<longleftrightarrow> a \<in> scan_result r c \<and> a \<notin> warned" for a
      using fin by (auto simp: al)
    have d: "distinct (alerts_logged w w')"
      by (simp add: al distinct_map inj_on_def)
    from wd al m d show ?thesis by blast
  qed
  have b: "alerts_logged w w'' = spec_alert_log r warned cs"
    if "monitor_loop r warned cs w = (Inr (), w'')"
    using monitor_loop_logged [OF that] alerts_logged_append by auto
  have c: "fst (monitor_iteration r warned c w) = Inr (scan_result r c)
      \<and> fst (monitor_loop r warned cs w) = Inr ()"
    if "mode (cfg r) \<noteq> ''protect''" "IpRouteShow False \<notin> spawn_faults w"
      "IpRouteShow True \<notin> spawn_faults w" "log_faults w = {}"
    using that
    by (simp add: monitor_iteration_not_protect monitor_loop_not_protect)
  from a b c show ?thesis by blast
qed

text \<open>
  One turn that finds the leak with nothing warned of logs it; one turn that finds it
  again logs nothing. Over four cycles (the leak is there, stays, disappears, and comes
  back) it is logged in the first and in the fourth.
\<close>

theorem monitor_alerts_witness:
  "fst (monitor_iteration (sample_runner ''monitor'') {} leak_cycle idle_host)
     = Inr {''0.0.0.0/1 via dev=eth0 gateway=192.168.1.1''}
   \<and> alerts_logged idle_host
        (snd (monitor_iteration (sample_runner ''monitor'') {} leak_cycle idle_host))
       = [''ALERT suspicious route detected: 0.0.0.0/1 via dev=eth0 gateway=192.168.1.1'']
   \<and> alerts_logged idle_host
        (snd (monitor_iteration (sample_runner ''monitor'')
                {''0.0.0.0/1 via dev=eth0 gateway=192.168.1.1''} leak_cycle idle_host))
       = []
   \<and> fst (monitor_loop (sample_runner ''monitor'') {}
          [leak_cycle, leak_cycle, calm_cycle, leak_cycle] idle_host) = Inr ()
   \<and> alerts_logged idle_host
        (snd (monitor_loop (sample_runner ''monitor'') {}
                [leak_cycle, leak_cycle, calm_cycle, leak_cycle] idle_host))
       = [''ALERT suspicious route detected: 0.0.0.0/1 via dev=eth0 gateway=192.168.1.1'',
          ''ALERT suspicious route detected: 0.0.0.0/1 via dev=eth0 gateway=192.168.1.1'']"
proof -
  let ?r = "sample_runner ''monitor''"
  let ?a = "''0.0.0.0/1 via dev=eth0 gateway=192.168.1.1''"
  let ?cs = "[leak_cycle, leak_cycle, calm_cycle, leak_cycle]"
  let ?w = "snd (monitor_loop ?r {} ?cs idle_host)"
  let ?w1 = "snd (monitor_iteration ?r {} leak_cycle idle_host)"
  let ?w2 = "snd (monitor_iteration ?r {?a} leak_cycle idle_host)"
  have h: "mode (cfg ?r) \<noteq> ''protect''" "IpRouteShow False \<notin> spawn_faults idle_host"
    "IpRouteShow True \<notin> spawn_faults idle_host" "log_faults idle_host = {}"
    by (simp_all add: sample_runner_def sample_cfg_def idle_host_def)
  have s1: "scan_result ?r leak_cycle = {?a}"
    by (simp add: scan_result_def leak_cycle_def suspicious_routes_def flagged_def targets_def
          egress_dev_def alert_of_def leak_low_def default_route_def sample_runner_def sample_cfg_def)
  have s2: "scan_result ?r calm_cycle = {}"
    by (simp add: scan_result_def calm_cycle_def suspicious_routes_def flagged_def targets_def
          egress_dev_def alert_of_def default_route_def sample_runner_def sample_cfg_def)
  have i1: "fst (monitor_iteration ?r {} leak_cycle idle_host) = Inr {?a}"
    using monitor_alerts [of ?r "{}" leak_cycle idle_host "{}" idle_host ?cs idle_host] h s1 by simp
  then have r1: "monitor_iteration ?r {} leak_cycle idle_host = (Inr {?a}, ?w1)"
    by (metis prod.collapse)
  have a1: "alerts_logged idle_host ?w1 = map alert_line (sorted_list_of_set (scan_result ?r leak_cycle - {}))"
    using monitor_alerts [of ?r "{}" leak_cycle idle_host "{?a}" ?w1 ?cs idle_host] r1 by blast
  have i2: "fst (monitor_iteration ?r {?a} leak_cycle idle_host) = Inr {?a}"
    using monitor_alerts [of ?r "{?a}" leak_cycle idle_host "{}" idle_host ?cs idle_host] h s1 by simp
  then have r2: "monitor_iteration ?r {?a} leak_cycle idle_host = (Inr {?a}, ?w2)"
    by (metis prod.collapse)
  have a2: "alerts_logged idle_host ?w2 = map alert_line (sorted_list_of_set (scan_result ?r leak_cycle - {?a}))"
    using monitor_alerts [of ?r "{?a}" leak_cycle idle_host "{?a}" ?w2 ?cs idle_host] r2 by blast
  have ok: "fst (monitor_loop ?r {} ?cs idle_host) = Inr ()"
    using monitor_alerts [of ?r "{}" leak_cycle idle_host "{}" idle_host ?cs idle_host] h by blast
  then have run: "monitor_loop ?r {} ?cs idle_host = (Inr (), ?w)"
    by (metis prod.collapse)
  have al: "alerts_logged idle_host ?w = spec_alert_log ?r {} ?cs"
    using monitor_alerts [of ?r "{}" leak_cycle idle_host "{}" idle_host ?cs ?w] run by blast
  have sp: "spec_alert_log ?r {} ?cs
       = [''ALERT suspicious route detected: 0.0.0.0/1 via dev=eth0 gateway=192.168.1.1'',
          ''ALERT suspicious route detected: 0.0.0.0/1 via dev=eth0 gateway=192.168.1.1'']"
    by (simp add: s1 s2 alert_line_def)
  have b1: "alerts_logged idle_host ?w1
       = [''ALERT suspicious route detected: 0.0.0.0/1 via dev=eth0 gateway=192.168.1.1'']"
    by (simp add: a1 s1 alert_line_def)
  have b2: "alerts_logged idle_host ?w2 = []"
    by (simp add: a2 s1)
  from i1 b1 b2 ok al sp show ?thesis by simp
qed

subsection \<open>The shape of the alert list\<close>

lemma doubled_alerts:
  "suspicious_routes doubled_routes ''wg0'' False
     = [''128.0.0.0/1 via dev=eth0 gateway=192.168.1.1'',
        ''0.0.0.0/1 via dev=eth0 gateway=192.168.1.1'',
        ''0.0.0.0/1 via dev=eth0 gateway=192.168.1.1'']"
  by (simp add: doubled_routes_def leak_high_def leak_low_def suspicious_routes_def flagged_def
        targets_def egress_dev_def alert_of_def)

text \<open>
  C5 as it was stated fails: for a route list with the upper half-range first and
  the lower half-range twice, the list returned holds the same alert twice and is not in
  sorted order.
\<close>

theorem suspicious_routes_sorted_set_counterexample:
  "\<not> distinct (suspicious_routes doubled_routes ''wg0'' False)
   \<and> \<not> sorted (suspicious_routes doubled_routes ''wg0'' False)"
  by (simp add: doubled_alerts)

text \<open>
  C5, as the code has it. The detector returns a list: one alert string for each flagged
  route, in the order of the route list, made of the route's destination, egress device and
  gateway (\<open>-\<close> when there is none) in the fixed form \<open>dst via dev=... gateway=...\<close>. It
  neither sorts nor removes duplicates. That is done by the runner: the scan result of a
  cycle is the set of the alert strings of both families, and the new alerts it logs,
  \<^verbatim>\<open>sorted(current - warned)\<close>, are sorted, without duplicates, and are the elements of the
  scan result that are not in the warned set.
\<close>

theorem suspicious_routes_alert_list:
  "suspicious_routes routes iface ipv6
     = map (\<lambda>r. (case r ''dst'' of None \<Rightarrow> ''None'' | Some dst \<Rightarrow> dst) @ '' via dev='' @ egress_dev r
                  @ '' gateway='' @ (case r ''gateway'' of None \<Rightarrow> ''-'' | Some g \<Rightarrow> g))
         (filter (flagged iface ipv6) routes)
   \<and> sorted (new_alerts warned (scan_result r c))
   \<and> distinct (new_alerts warned (scan_result r c))
   \<and> set (new_alerts warned (scan_result r c)) = scan_result r c - warned"
proof -
  have a: "suspicious_routes routes iface ipv6
     = map (\<lambda>r. (case r ''dst'' of None \<Rightarrow> ''None'' | Some dst \<Rightarrow> dst) @ '' via dev='' @ egress_dev r
                  @ '' gateway='' @ (case r ''gateway'' of None \<Rightarrow> ''-'' | Some g \<Rightarrow> g))
         (filter (flagged iface ipv6) routes)"
    by (simp add: suspicious_routes_eq alert_of_def)
  have fin: "finite (scan_result r c - warned)" by (simp add: scan_result_def)
  have b: "sorted (new_alerts warned (scan_result r c))"
    "distinct (new_alerts warned (scan_result r c))"
    "set (new_alerts warned (scan_result r c)) = scan_result r c - warned"
    using fin by (simp_all add: new_alerts_def)
  from a b show ?thesis by blast
qed

theorem suspicious_routes_alert_list_witness:
  "new_alerts {} (scan_result (sample_runner ''monitor'') doubled_cycle)
     = [''0.0.0.0/1 via dev=eth0 gateway=192.168.1.1'',
        ''128.0.0.0/1 via dev=eth0 gateway=192.168.1.1'']"
proof -
  let ?r = "sample_runner ''monitor''"
  let ?xs = "[''0.0.0.0/1 via dev=eth0 gateway=192.168.1.1'',
        ''128.0.0.0/1 via dev=eth0 gateway=192.168.1.1'']"
  have i: "vpn_iface (cfg ?r) = ''wg0''" by (simp add: sample_runner_def sample_cfg_def)
  have e: "suspicious_routes [] ''wg0'' True = []" by (simp add: suspicious_routes_def)
  have s: "scan_result ?r doubled_cycle = set ?xs"
    by (auto simp: scan_result_def doubled_cycle_def i doubled_alerts e)
  have so: "sorted ?xs" "distinct ?xs" by simp_all
  from suspicious_routes_alert_list [of "[]" "''wg0''" False "{}" ?r doubled_cycle]
  have "sorted (new_alerts {} (scan_result ?r doubled_cycle))"
    "distinct (new_alerts {} (scan_result ?r doubled_cycle))"
    "set (new_alerts {} (scan_result ?r doubled_cycle)) = scan_result ?r doubled_cycle - {}"
    by blast+
  then have "sorted (new_alerts {} (scan_result ?r doubled_cycle))"
    "distinct (new_alerts {} (scan_result ?r doubled_cycle))"
    "set (new_alerts {} (scan_result ?r doubled_cycle)) = set ?xs"
    using s by simp_all
  with so show ?thesis
    by (metis sorted_distinct_set_unique)
qed

subsection \<open>A configuration without endpoint list\<close>

lemma json_string_key [simp]:
  \<open>json_string ''mode'' = ''"mode"''\<close>
  \<open>json_string ''vpn_iface'' = ''"vpn_iface"''\<close>
  \<open>json_string ''poll_interval_sec'' = ''"poll_interval_sec"''\<close>
  \<open>json_string ''allow_lan'' = ''"allow_lan"''\<close>
  \<open>json_string ''allow_dhcp'' = ''"allow_dhcp"''\<close>
  \<open>json_string ''vpn_endpoints'' = ''"vpn_endpoints"''\<close>
  by (simp_all add: json_string_def json_escape_char_def dquote_def)

lemma to_json_absent:
  assumes "vpn_endpoints conf = None"
  shows \<open>to_json conf =
      ''{'' @ newline_indent 1
      @ ''"mode": '' @ json_string (mode conf) @ '','' @ newline_indent 1
      @ ''"vpn_iface": '' @ json_string (vpn_iface conf) @ '','' @ newline_indent 1
      @ ''"poll_interval_sec": '' @ str_int (poll_interval_sec conf) @ '','' @ newline_indent 1
      @ ''"allow_lan": '' @ (if allow_lan conf then ''true'' else ''false'') @ '','' @ newline_indent 1
      @ ''"allow_dhcp": '' @ (if allow_dhcp conf then ''true'' else ''false'') @ '','' @ newline_indent 1
      @ ''"vpn_endpoints": []'' @ [newline] @ ''}''\<close>
  using assms
  by (simp add: to_json_def to_dict_def endpoints_or_empty_def newline_indent_def)

text \<open>
  C10. The constructor called without an endpoint list stores \<^verbatim>\<open>None\<close>. For every
  configuration whose endpoint list is \<^verbatim>\<open>None\<close> the compiler returns a script: its chain
  has the loopback, tunnel and link-local accepts, the DHCP and LAN accepts the flags ask
  for, no endpoint accept, and the final drop, and it is the script of the same
  configuration with the empty list. \<^verbatim>\<open>to_dict\<close> gives the empty list for
  \<^verbatim>\<open>vpn_endpoints\<close>, and \<^verbatim>\<open>to_json\<close> renders it as \<^verbatim>\<open>[]\<close>. (The other readers of the
  field, the log lines of \<^verbatim>\<open>run\<close> and \<^verbatim>\<open>apply_nft_rules\<close>, go through the same
  \<^verbatim>\<open>or []\<close>.)
\<close>

theorem absent_endpoints_handled:
  assumes "vpn_endpoints conf = None"
  shows \<open>chain_rules conf =
        [loopback_rule, tunnel_rule (remove_char dquote (vpn_iface conf)), link_local_rule]
        @ (if allow_dhcp conf then dhcp_rules else [])
        @ (if allow_lan conf then lan_rules else [])
        @ [drop_rule (remove_char dquote (vpn_iface conf))]
    \<and> build_nft_script conf = build_nft_script (conf\<lparr>vpn_endpoints := Some []\<rparr>)
    \<and> to_dict conf =
        JObj [(''mode'', JStr (mode conf)),
              (''vpn_iface'', JStr (vpn_iface conf)),
              (''poll_interval_sec'', JInt (poll_interval_sec conf)),
              (''allow_lan'', JBool (allow_lan conf)),
              (''allow_dhcp'', JBool (allow_dhcp conf)),
              (''vpn_endpoints'', JList [])]
    \<and> to_json conf =
      ''{'' @ newline_indent 1
      @ ''"mode": '' @ json_string (mode conf) @ '','' @ newline_indent 1
      @ ''"vpn_iface": '' @ json_string (vpn_iface conf) @ '','' @ newline_indent 1
      @ ''"poll_interval_sec": '' @ str_int (poll_interval_sec conf) @ '','' @ newline_indent 1
      @ ''"allow_lan": '' @ (if allow_lan conf then ''true'' else ''false'') @ '','' @ newline_indent 1
      @ ''"allow_dhcp": '' @ (if allow_dhcp conf then ''true'' else ''false'') @ '','' @ newline_indent 1
      @ ''"vpn_endpoints": []'' @ [newline] @ ''}''
    \<and> to_json conf = to_json (conf\<lparr>vpn_endpoints := Some []\<rparr>)
    \<and> vpn_endpoints (GeneratedConfig_default m iface) = None\<close>
proof -
  have e: "endpoints_or_empty conf = []" using assms by (simp add: endpoints_or_empty_def)
  have a: "chain_rules conf =
        [loopback_rule, tunnel_rule (remove_char dquote (vpn_iface conf)), link_local_rule]
        @ (if allow_dhcp conf then dhcp_rules else [])
        @ (if allow_lan conf then lan_rules else [])
        @ [drop_rule (remove_char dquote (vpn_iface conf))]"
    by (simp add: chain_rules_eq e)
  have b: "build_nft_script conf = build_nft_script (conf\<lparr>vpn_endpoints := Some []\<rparr>)"
    by (simp add: build_nft_script_def build_nft_lines_def endpoints_or_empty_def assms)
  have c: "to_dict conf =
        JObj [(''mode'', JStr (mode conf)),
              (''vpn_iface'', JStr (vpn_iface conf)),
              (''poll_interval_sec'', JInt (poll_interval_sec conf)),
              (''allow_lan'', JBool (allow_lan conf)),
              (''allow_dhcp'', JBool (allow_dhcp conf)),
              (''vpn_endpoints'', JList [])]"
    by (simp add: to_dict_def e)
  have d: "to_json conf = to_json (conf\<lparr>vpn_endpoints := Some []\<rparr>)"
    by (simp add: to_json_def to_dict_def endpoints_or_empty_def assms)
  have f: "vpn_endpoints (GeneratedConfig_default m iface) = None"
    by (simp add: GeneratedConfig_default_def)
  from a b c d f to_json_absent [OF assms] show ?thesis by blast
qed

lemma json_string_plain:
  \<open>json_string ''protect'' = ''"protect"''\<close> \<open>json_string ''wg0'' = ''"wg0"''\<close>
  by (simp_all add: json_string_def json_escape_char_def dquote_def)

theorem absent_endpoints_handled_witness:
  \<open>vpn_endpoints (GeneratedConfig_default ''protect'' ''wg0'') = None
   \<and> chain_rules (GeneratedConfig_default ''protect'' ''wg0'') =
     [''    oifname "lo" accept'',
      ''    oifname "wg0" accept'',
      ''    ip6 daddr { fe80::/10, ff00::/8 } accept'',
      ''    udp sport 68 udp dport 67 accept'',
      ''    udp sport 546 udp dport 547 accept'',
      ''    ip daddr { 10.0.0.0/8, 172.16.0.0/12, 192.168.0.0/16 } accept'',
      ''    ip6 daddr fc00::/7 accept'',
      ''    oifname != "wg0" drop'']
   \<and> to_json (GeneratedConfig_default ''protect'' ''wg0'') =
      ''{'' @ [newline]
      @ ''  "mode": "protect",'' @ [newline]
      @ ''  "vpn_iface": "wg0",'' @ [newline]
      @ ''  "poll_interval_sec": 5,'' @ [newline]
      @ ''  "allow_lan": true,'' @ [newline]
      @ ''  "allow_dhcp": true,'' @ [newline]
      @ ''  "vpn_endpoints": []'' @ [newline]
      @ ''}''\<close>
proof -
  let ?c = "GeneratedConfig_default ''protect'' ''wg0''"
  have n: "vpn_endpoints ?c = None" by (simp add: GeneratedConfig_default_def)
  have p: "str_int 5 = ''5''" by (simp add: str_int_def digits_of_nat.simps)
  have f: "mode ?c = ''protect''" "vpn_iface ?c = ''wg0''" "poll_interval_sec ?c = 5"
    "allow_lan ?c" "allow_dhcp ?c"
    by (simp_all add: GeneratedConfig_default_def DEFAULT_INTERVAL_def)
  note t = absent_endpoints_handled [OF n, of "''protect''" "''wg0''"]
  have r: "chain_rules ?c =
     [''    oifname \"lo\" accept'',
      ''    oifname \"wg0\" accept'',
      ''    ip6 daddr { fe80::/10, ff00::/8 } accept'',
      ''    udp sport 68 udp dport 67 accept'',
      ''    udp sport 546 udp dport 547 accept'',
      ''    ip daddr { 10.0.0.0/8, 172.16.0.0/12, 192.168.0.0/16 } accept'',
      ''    ip6 daddr fc00::/7 accept'',
      ''    oifname != \"wg0\" drop'']"
    using t [THEN conjunct1]
    by (simp add: f loopback_rule_def tunnel_rule_def
          link_local_rule_def dhcp_rules_def lan_rules_def drop_rule_def remove_char_def
          dquote_def LINK_LOCAL_V6_def PRIVATE_V4_CIDRS_def PRIVATE_V6_CIDR_def)
  have j: "to_json ?c =
      ''{'' @ [newline]
      @ ''  \"mode\": \"protect\",'' @ [newline]
      @ ''  \"vpn_iface\": \"wg0\",'' @ [newline]
      @ ''  \"poll_interval_sec\": 5,'' @ [newline]
      @ ''  \"allow_lan\": true,'' @ [newline]
      @ ''  \"allow_dhcp\": true,'' @ [newline]
      @ ''  \"vpn_endpoints\": []'' @ [newline]
      @ ''}''"
    using t [THEN conjunct2, THEN conjunct2, THEN conjunct2, THEN conjunct1]
    by (simp add: f p json_string_plain newline_indent_def numeral_2_eq_2)
  from n r j show ?thesis by simp
qed

subsection \<open>The endpoint list of the configuration\<close>

lemma keep_into_eq:
  "keep_into acc xs = acc @ keep_first (filter (\<lambda>x. x \<notin> set acc) xs)"
proof (induction xs arbitrary: acc)
  case Nil
  then show ?case by simp
next
  case (Cons x xs)
  show ?case
  proof (cases "x \<in> set acc")
    case True
    then show ?thesis using Cons.IH [of acc] by simp
  next
    case False
    have "filter (\<lambda>y. y \<noteq> x) (filter (\<lambda>y. y \<notin> set acc) xs)
            = filter (\<lambda>y. y \<notin> set (acc @ [x])) xs"
      by (induction xs) auto
    then show ?thesis using False Cons.IH [of "acc @ [x]"] by simp
  qed
qed

lemma keep_into_append: "keep_into acc (xs @ ys) = keep_into (keep_into acc xs) ys"
  by (induction xs arbitrary: acc) simp_all

lemma set_keep_first [simp]: "set (keep_first xs) = set xs"
proof (induction xs rule: keep_first.induct)
  case 1
  then show ?case by simp
next
  case (2 x xs)
  then show ?case by auto
qed

lemma distinct_keep_first [simp]: "distinct (keep_first xs)"
  by (induction xs rule: keep_first.induct) simp_all

lemma length_keep_first: "length (keep_first xs) \<le> length xs"
proof (induction xs rule: keep_first.induct)
  case 1
  then show ?case by simp
next
  case (2 x xs)
  have "length (filter (\<lambda>y. y \<noteq> x) xs) \<le> length xs" by simp
  with 2 have "length (keep_first (filter (\<lambda>y. y \<noteq> x) xs)) \<le> length xs"
    by (rule order_trans)
  then show ?case by simp
qed

lemma keep_first_Nil_iff [simp]: "keep_first xs = [] \<longleftrightarrow> xs = []"
  by (cases xs) simp_all

lemma key_udp_rule [simp]: "endpoint_key_of (udp_rule p a) = (a, p, ''udp'')"
  by (simp add: endpoint_key_of_def udp_rule_def)

lemma endpoint_key_inj: "endpoint_key_of a = endpoint_key_of b \<Longrightarrow> a = b"
  by (cases a, cases b) (simp add: endpoint_key_of_def)

lemma key_in_image: "endpoint_key_of e \<in> endpoint_key_of ` S \<longleftrightarrow> e \<in> S"
  using endpoint_key_inj by auto

lemma add_ips_eq:
  "add_ips as p (eps, endpoint_key_of ` set eps)
     = (keep_into eps (map (udp_rule p) as), endpoint_key_of ` set (keep_into eps (map (udp_rule p) as)))"
proof (induction as arbitrary: eps)
  case Nil
  then show ?case by simp
next
  case (Cons a as)
  have k: "(a, p, ''udp'') \<in> endpoint_key_of ` set eps \<longleftrightarrow> udp_rule p a \<in> set eps"
    using key_in_image [of "udp_rule p a" "set eps"] by simp
  show ?case
  proof (cases "udp_rule p a \<in> set eps")
    case True
    then show ?thesis using k Cons.IH [of eps] by simp
  next
    case False
    have "add_ips (a # as) p (eps, endpoint_key_of ` set eps)
            = add_ips as p (eps @ [udp_rule p a], endpoint_key_of ` set (eps @ [udp_rule p a]))"
      using False k by (simp add: udp_rule_def endpoint_key_of_def)
    then show ?thesis using False Cons.IH [of "eps @ [udp_rule p a]"] by simp
  qed
qed

lemma peers_loop_eq:
  assumes "peers_loop env ps (eps, endpoint_key_of ` set eps) = Inr (eps', seen')"
  shows "(\<forall>peer \<in> set ps. \<exists>rs. peer_rules env peer = Inr rs)
     \<and> eps' = keep_into eps (all_peer_rules env ps)
     \<and> seen' = endpoint_key_of ` set eps'"
  using assms
proof (induction ps arbitrary: eps)
  case Nil
  then show ?case by (auto simp: all_peer_rules_def)
next
  case (Cons peer rest)
  show ?case
  proof (cases "peer_rules env peer")
    case (Inl e)
    with Cons.prems show ?thesis
      by (auto simp: peer_rules_def split: option.splits if_splits sum.splits prod.splits)
  next
    case (Inr rs)
    have step: "peers_loop env (peer # rest) (eps, endpoint_key_of ` set eps)
        = peers_loop env rest (keep_into eps rs, endpoint_key_of ` set (keep_into eps rs))"
      using Inr
      by (auto simp: peer_rules_def add_ips_eq udp_rule_def [abs_def]
          split: option.splits if_splits sum.splits prod.splits)
    with Cons.prems have r: "peers_loop env rest (keep_into eps rs, endpoint_key_of ` set (keep_into eps rs))
        = Inr (eps', seen')" by simp
    from Cons.IH [OF r] have ih: "\<forall>peer \<in> set rest. \<exists>rs. peer_rules env peer = Inr rs"
      "eps' = keep_into (keep_into eps rs) (all_peer_rules env rest)"
      "seen' = endpoint_key_of ` set eps'" by auto
    have "all_peer_rules env (peer # rest) = rs @ all_peer_rules env rest"
      by (simp add: all_peer_rules_def peer_rule_list_def Inr)
    with ih Inr show ?thesis by (simp add: keep_into_append)
  qed
qed

lemma peers_loop_ok:
  assumes "\<forall>peer \<in> set ps. \<exists>rs. peer_rules env peer = Inr rs"
  shows "peers_loop env ps (eps, endpoint_key_of ` set eps)
     = Inr (keep_into eps (all_peer_rules env ps),
            endpoint_key_of ` set (keep_into eps (all_peer_rules env ps)))"
  using assms
proof (induction ps arbitrary: eps)
  case Nil
  then show ?case by (simp add: all_peer_rules_def)
next
  case (Cons peer rest)
  then obtain rs where rs: "peer_rules env peer = Inr rs" by auto
  have step: "peers_loop env (peer # rest) (eps, endpoint_key_of ` set eps)
        = peers_loop env rest (keep_into eps rs, endpoint_key_of ` set (keep_into eps rs))"
    using rs
    by (auto simp: peer_rules_def add_ips_eq udp_rule_def [abs_def]
        split: option.splits if_splits sum.splits prod.splits)
  have "all_peer_rules env (peer # rest) = rs @ all_peer_rules env rest"
    by (simp add: all_peer_rules_def peer_rule_list_def rs)
  with step Cons show ?case by (simp add: keep_into_append)
qed

lemma peer_rules_udp:
  "peer_rules env peer = Inr rs \<Longrightarrow> e \<in> set rs \<Longrightarrow> proto e = ''udp''"
  by (auto simp: peer_rules_def split: option.splits if_splits sum.splits prod.splits)

lemma all_peer_rules_udp: "e \<in> set (all_peer_rules env ps) \<Longrightarrow> proto e = ''udp''"
  by (auto simp: all_peer_rules_def peer_rule_list_def dest: peer_rules_udp [OF sym] split: sum.splits)

lemma length_all_peer_rules:
  "length (all_peer_rules env ps) = sum_list (map (\<lambda>peer. length (peer_rule_list env peer)) ps)"
  by (simp add: all_peer_rules_def length_concat comp_def)

lemma sum_list_bound:
  "(\<forall>x \<in> set xs. f x \<le> (k::nat)) \<Longrightarrow> sum_list (map f xs) \<le> length xs * k"
  by (induction xs) auto


lemma keep_into_Nil: "keep_into [] xs = keep_first xs"
  by (simp add: keep_into_eq)

lemma peers_loop_start:
  "peers_loop env ps ([], {}) = peers_loop env ps ([], endpoint_key_of ` set [])"
  by simp

text \<open>
  C3. Let the file parse. When the construction returns a configuration, the endpoint
  value of every peer that has one was parsed and resolved, and the endpoint list is the
  list of the rules of all peers in file order (for each peer one \<open>udp\<close> rule per resolved
  address, with the port of its endpoint) of which equal entries are kept once, at their
  first place. So all its entries have protocol \<open>udp\<close>, no two have the same address,
  port and protocol, and their number is at least 1 and at most the sum over the peers of
  the number of their resolved addresses, hence at most \<open>N * k\<close> for \<open>N\<close> peers with at
  most \<open>k\<close> addresses each. When every endpoint can be parsed and resolved, the
  construction fails with the error for a missing endpoint if that list is empty, and
  returns a configuration otherwise.
\<close>

theorem build_generated_config_endpoints:
  assumes parsed: "parse_wireguard_config file path = Inr data"
  shows
    "(build_generated_config_from_wg env file path md iface_arg lan dhcp interval = Inr conf \<longrightarrow>
        (\<forall>peer \<in> set (peers data). \<exists>rs. peer_rules env peer = Inr rs)
        \<and> vpn_endpoints conf = Some (keep_first (all_peer_rules env (peers data)))
        \<and> (\<forall>e \<in> set (endpoints_or_empty conf). proto e = ''udp'')
        \<and> distinct (map endpoint_key_of (endpoints_or_empty conf))
        \<and> 1 \<le> length (endpoints_or_empty conf)
        \<and> length (endpoints_or_empty conf)
            \<le> sum_list (map (\<lambda>peer. length (peer_rule_list env peer)) (peers data))
        \<and> ((\<forall>peer \<in> set (peers data). length (peer_rule_list env peer) \<le> k) \<longrightarrow>
             length (endpoints_or_empty conf) \<le> length (peers data) * k))
     \<and> ((\<forall>peer \<in> set (peers data). \<exists>rs. peer_rules env peer = Inr rs)
          \<and> all_peer_rules env (peers data) = [] \<longrightarrow>
        build_generated_config_from_wg env file path md iface_arg lan dhcp interval
          = Inl (RouteGuardError ''No Peer Endpoint found in WireGuard config.''))
     \<and> ((\<forall>peer \<in> set (peers data). \<exists>rs. peer_rules env peer = Inr rs)
          \<and> all_peer_rules env (peers data) \<noteq> [] \<longrightarrow>
        (\<exists>c. build_generated_config_from_wg env file path md iface_arg lan dhcp interval = Inr c))"
proof -
  let ?all = "all_peer_rules env (peers data)"
  let ?build = "build_generated_config_from_wg env file path md iface_arg lan dhcp interval"
  have a: "(\<forall>peer \<in> set (peers data). \<exists>rs. peer_rules env peer = Inr rs)
        \<and> vpn_endpoints conf = Some (keep_first ?all)
        \<and> (\<forall>e \<in> set (endpoints_or_empty conf). proto e = ''udp'')
        \<and> distinct (map endpoint_key_of (endpoints_or_empty conf))
        \<and> 1 \<le> length (endpoints_or_empty conf)
        \<and> length (endpoints_or_empty conf)
            \<le> sum_list (map (\<lambda>peer. length (peer_rule_list env peer)) (peers data))
        \<and> ((\<forall>peer \<in> set (peers data). length (peer_rule_list env peer) \<le> k) \<longrightarrow>
             length (endpoints_or_empty conf) \<le> length (peers data) * k)"
    if b: "?build = Inr conf"
  proof -
    from b parsed obtain eps seen where
      l: "peers_loop env (peers data) ([], {}) = Inr (eps, seen)" and ne: "eps \<noteq> []"
      and c: "vpn_endpoints conf = Some eps"
      by (auto simp: build_generated_config_from_wg_def Let_def split: sum.splits prod.splits if_splits)
    from l have "peers_loop env (peers data) ([], endpoint_key_of ` set []) = Inr (eps, seen)"
      by simp
    from peers_loop_eq [OF this] have ok: "\<forall>peer \<in> set (peers data). \<exists>rs. peer_rules env peer = Inr rs"
      and eps: "eps = keep_first ?all" by (simp_all add: keep_into_Nil)
    have e: "endpoints_or_empty conf = keep_first ?all"
      by (simp add: endpoints_or_empty_def c eps)
    have u: "\<forall>e \<in> set (endpoints_or_empty conf). proto e = ''udp''"
      by (simp add: e all_peer_rules_udp)
    have d: "distinct (map endpoint_key_of (endpoints_or_empty conf))"
      by (simp add: e distinct_map inj_on_def endpoint_key_inj)
    have l1: "1 \<le> length (endpoints_or_empty conf)"
      using ne eps e by (cases "keep_first ?all") simp_all
    have l2: "length (endpoints_or_empty conf)
            \<le> sum_list (map (\<lambda>peer. length (peer_rule_list env peer)) (peers data))"
      using length_keep_first [of ?all] by (simp add: e length_all_peer_rules)
    have l3: "length (endpoints_or_empty conf) \<le> length (peers data) * k"
      if "\<forall>peer \<in> set (peers data). length (peer_rule_list env peer) \<le> k"
      using l2 sum_list_bound [OF that] by (rule order_trans)
    from ok c eps u d l1 l2 l3 show ?thesis by blast
  qed
  have lp: "peers_loop env (peers data) ([], {}) = Inr (keep_first ?all, endpoint_key_of ` set (keep_first ?all))"
    if "\<forall>peer \<in> set (peers data). \<exists>rs. peer_rules env peer = Inr rs"
    using peers_loop_ok [OF that, of "[]"] by (simp add: keep_into_Nil)
  have b: "?build = Inl (RouteGuardError ''No Peer Endpoint found in WireGuard config.'')"
    if "\<forall>peer \<in> set (peers data). \<exists>rs. peer_rules env peer = Inr rs" "?all = []"
    using lp [OF that(1)] that(2) parsed
    by (simp add: build_generated_config_from_wg_def)
  have c: "\<exists>c. ?build = Inr c"
    if "\<forall>peer \<in> set (peers data). \<exists>rs. peer_rules env peer = Inr rs" "?all \<noteq> []"
    using lp [OF that(1)] that(2) parsed
    by (simp add: build_generated_config_from_wg_def Let_def)
  from a b c show ?thesis by blast
qed

text \<open>
  The file of the end-to-end scenario: one peer with the endpoint \<open>203.0.113.5:51820\<close>,
  read from \<^verbatim>\<open>/etc/wireguard/wg0.conf\<close>.
\<close>

lemma sample_lines:
  "splitlines sample_wg_file
     = [''[Interface]'', ''PrivateKey = abc='', ''# the server'', ''[Peer]'', ''Endpoint = 203.0.113.5:51820'']"
  by (simp add: splitlines_def sample_wg_file_def newline_def is_linebreak_def)

lemma sample_parse:
  "parse_wireguard_config (Some sample_wg_file) ''/etc/wireguard/wg0.conf''
     = Inr \<lparr>interface = [''PrivateKey'' \<mapsto> ''abc=''],
            peers = [ [''Endpoint'' \<mapsto> ''203.0.113.5:51820''] ]\<rparr>"
  by (simp add: parse_wireguard_config_def sample_lines parse_line_def Let_def strip_def is_space_def
        lower_def lower_char_def)


lemma sample_endpoint: "parse_endpoint ''203.0.113.5:51820'' = Inr (''203.0.113.5'', 51820)"
  by (simp add: parse_endpoint_def Let_def strip_def is_space_def before_last_colon_def
        after_last_colon_def isdigit_def is_digit_def int_of_digits_def digit_value_def)

lemma sample_peer_rules:
  "peer_rules literal_resolver [''Endpoint'' \<mapsto> ''203.0.113.5:51820'']
     = Inr [\<lparr>ip = ''203.0.113.5'', port = 51820, proto = ''udp''\<rparr>]"
  by (simp add: peer_rules_def sample_endpoint resolve_host_ips_def literal_resolver_def)

lemma sample_iface: "infer_iface_name_from_wg_path ''/etc/wireguard/wg0.conf'' = ''wg0''"
  by (simp add: infer_iface_name_from_wg_path_def path_name_def split_on_def Let_def)

theorem build_generated_config_endpoints_witness:
  "parse_wireguard_config (Some sample_wg_file) ''/etc/wireguard/wg0.conf''
     = Inr \<lparr>interface = [''PrivateKey'' \<mapsto> ''abc=''],
            peers = [ [''Endpoint'' \<mapsto> ''203.0.113.5:51820''] ]\<rparr>
   \<and> build_generated_config_from_wg literal_resolver (Some sample_wg_file)
        ''/etc/wireguard/wg0.conf'' ''protect'' None True True 5
     = Inr \<lparr>mode = ''protect'', vpn_iface = ''wg0'', poll_interval_sec = 5, allow_lan = True,
            allow_dhcp = True,
            vpn_endpoints = Some [\<lparr>ip = ''203.0.113.5'', port = 51820, proto = ''udp''\<rparr>]\<rparr>
   \<and> keep_first (all_peer_rules literal_resolver [ [''Endpoint'' \<mapsto> ''203.0.113.5:51820''] ])
     = [\<lparr>ip = ''203.0.113.5'', port = 51820, proto = ''udp''\<rparr>]
   \<and> parse_wireguard_config (Some bare_wg_file) ''/etc/wireguard/wg0.conf''
     = Inr \<lparr>interface = Map.empty, peers = [ [''PublicKey'' \<mapsto> ''k''] ]\<rparr>
   \<and> build_generated_config_from_wg literal_resolver (Some bare_wg_file)
        ''/etc/wireguard/wg0.conf'' ''protect'' None True True 5
     = Inl (RouteGuardError ''No Peer Endpoint found in WireGuard config.'')"
proof -
  let ?data = "\<lparr>interface = [''PrivateKey'' \<mapsto> ''abc=''],
            peers = [ [''Endpoint'' \<mapsto> ''203.0.113.5:51820''] ]\<rparr>"
  let ?build = "build_generated_config_from_wg literal_resolver (Some sample_wg_file)
        ''/etc/wireguard/wg0.conf'' ''protect'' None True True 5"
  have all: "all_peer_rules literal_resolver (peers ?data)
      = [\<lparr>ip = ''203.0.113.5'', port = 51820, proto = ''udp''\<rparr>]"
    by (simp add: all_peer_rules_def peer_rule_list_def sample_peer_rules)
  have ok: "\<forall>peer \<in> set (peers ?data). \<exists>rs. peer_rules literal_resolver peer = Inr rs"
    by (simp add: sample_peer_rules)
  note t = build_generated_config_endpoints [OF sample_parse, of literal_resolver "''protect''" None
      True True 5]
  from t [of "sample_cfg ''protect''" 0] ok all obtain c where c: "?build = Inr c" by auto
  from t [of c 0] c all have e: "vpn_endpoints c = Some (keep_first [\<lparr>ip = ''203.0.113.5'', port = 51820, proto = ''udp''\<rparr>])"
    by simp
  have c': "c = \<lparr>mode = ''protect'', vpn_iface = ''wg0'', poll_interval_sec = 5, allow_lan = True,
            allow_dhcp = True, vpn_endpoints = vpn_endpoints c\<rparr>"
    using c
    by (auto simp: build_generated_config_from_wg_def sample_parse sample_iface Let_def
        split: sum.splits prod.splits if_splits)
  let ?bare = "\<lparr>interface = Map.empty, peers = [ [''PublicKey'' \<mapsto> ''k''] ]\<rparr>"
  have bp: "parse_wireguard_config (Some bare_wg_file) ''/etc/wireguard/wg0.conf'' = Inr ?bare"
    by (simp add: parse_wireguard_config_def splitlines_def bare_wg_file_def newline_def
          is_linebreak_def parse_line_def Let_def strip_def is_space_def lower_def lower_char_def)
  have bok: "\<forall>peer \<in> set (peers ?bare). \<exists>rs. peer_rules literal_resolver peer = Inr rs"
    by (simp add: peer_rules_def)
  have ball: "all_peer_rules literal_resolver (peers ?bare) = []"
    by (simp add: all_peer_rules_def peer_rule_list_def peer_rules_def)
  have be: "build_generated_config_from_wg literal_resolver (Some bare_wg_file)
        ''/etc/wireguard/wg0.conf'' ''protect'' None True True 5
     = Inl (RouteGuardError ''No Peer Endpoint found in WireGuard config.'')"
    using build_generated_config_endpoints [OF bp, of literal_resolver "''protect''" None True True 5
        "sample_cfg ''protect''" 0] bok ball
    by blast
  show ?thesis using sample_parse c c' e all bp be by simp
qed

end
